theory Spec2Isabelle
  imports Complex_Main
begin

section \<open>Conventions of the embedding\<close>

text \<open>
  The Python sources compute with \<open>float\<close>. In the drone simulator and the image
  processor the embedding reads every float as a \<^typ>\<open>real\<close>: no branch there depends
  on the last bits of a result, and rounding is outside the model. The detection simulator
  compares a computed distance with a radius, and rounding decides that test at positions
  the drone reaches; there every float operation is the operation on doubles, and every
  literal is the double it denotes. What the sources take from their environment is an
  explicit argument: the pseudo-random generator is a sequence of draws of
  \<open>random.random()\<close>, the wall clock is the value \<open>time.time()\<close> returned.
\<close>

type_synonym rng = "nat \<Rightarrow> real"

text \<open>\<open>random.random()\<close>: the next draw of the generator, and the generator after it.\<close>

definition random_random :: "rng \<Rightarrow> real \<times> rng" where
  "random_random g = (g 0, \<lambda>n. g (Suc n))"

text \<open>\<open>random.uniform(a, b)\<close> is \<open>a + (b - a) * random()\<close> in CPython.\<close>

definition random_uniform :: "real \<Rightarrow> real \<Rightarrow> rng \<Rightarrow> real \<times> rng" where
  "random_uniform a b g = (case random_random g of (u, g') \<Rightarrow> (a + (b - a) * u, g'))"

text \<open>The draws of a generator lie in \<open>[0, 1)\<close>.\<close>

definition rng_ok :: "rng \<Rightarrow> bool" where
  "rng_ok g \<longleftrightarrow> (\<forall>n. 0 \<le> g n \<and> g n < 1)"

section \<open>Double-precision arithmetic\<close>

text \<open>
  A double is a real \<open>m * 2^e\<close> with \<open>|m| < 2^53\<close> and \<open>-1074 \<le> e \<le> 971\<close>. An
  operation of IEEE-754 arithmetic returns the exact result rounded to the nearest double,
  ties to the even significand: \<open>fl\<close>, in which \<open>binade x\<close> is the exponent of the
  binade of \<open>x\<close> (at least that of the subnormal numbers) and the doubles of that binade
  are the multiples of \<open>2^(binade x - 52)\<close>. Results beyond the largest double are
  outside the model. A literal such as \<open>34.0522\<close> denotes the double \<open>fl 34.0522\<close>.
\<close>

definition round_half_even :: "real \<Rightarrow> int" where
  "round_half_even y =
     (let f = \<lfloor>y\<rfloor> in
      if y - of_int f < 1 / 2 then f
      else if y - of_int f > 1 / 2 then f + 1
      else if even f then f else f + 1)"

definition binade :: "real \<Rightarrow> int" where
  "binade x = max \<lfloor>log 2 \<bar>x\<bar>\<rfloor> (- 1022)"

definition fl :: "real \<Rightarrow> real" where
  "fl x = (if x = 0 then 0
           else of_int (round_half_even (x / 2 powi (binade x - 52))) * 2 powi (binade x - 52))"

definition is_double :: "real \<Rightarrow> bool" where
  "is_double d \<longleftrightarrow>
     (\<exists>m e. d = of_int m * 2 powi e \<and> \<bar>m\<bar> < 2 ^ 53 \<and> - 1074 \<le> e \<and> e \<le> 971)"

text \<open>
  Addition, subtraction and multiplication of floats, and \<open>math.sqrt\<close>.
\<close>

definition fadd :: "real \<Rightarrow> real \<Rightarrow> real" where "fadd x y = fl (x + y)"

definition fsub :: "real \<Rightarrow> real \<Rightarrow> real" where "fsub x y = fl (x - y)"

definition fmul :: "real \<Rightarrow> real \<Rightarrow> real" where "fmul x y = fl (x * y)"

definition fsqrt :: "real \<Rightarrow> real" where "fsqrt x = fl (sqrt x)"

text \<open>
  \<open>x ** 2\<close> on a float is the C library's \<open>pow(x, 2.0)\<close>, which is not the correctly
  rounded square on every platform. It is a parameter of the model; \<open>rounded_square\<close>
  is the correctly rounded one.
\<close>

type_synonym libm_pow2 = "real \<Rightarrow> real"

definition rounded_square :: libm_pow2 where
  "rounded_square x = fl (x * x)"

section \<open>The drone simulator (drone_simulator.py)\<close>

record drone =
  initial_lat :: real
  initial_lng :: real
  latitude :: real
  longitude :: real
  altitude :: real
  speed :: real
  heading :: int
  battery_level :: real
  signal_strength :: real
  last_update_time :: real
  is_flying :: bool
  max_speed :: real
  max_altitude :: real
  min_altitude :: real
  movement_step :: real

text \<open>\<open>__init__\<close>; the last argument is what \<open>time.time()\<close> returns at construction.\<close>

definition init_drone :: "real \<Rightarrow> real \<Rightarrow> real \<Rightarrow> real \<Rightarrow> drone" where
  "init_drone ilat ilng ialt now =
     \<lparr> initial_lat = ilat, initial_lng = ilng, latitude = ilat, longitude = ilng,
       altitude = ialt, speed = 0.0, heading = 0, battery_level = 100,
       signal_strength = 95, last_update_time = now, is_flying = False,
       max_speed = 10.0, max_altitude = 50.0, min_altitude = 5.0,
       movement_step = 0.0001 \<rparr>"

text \<open>The constructor with its default arguments \<open>(0.0, 0.0, 10.0)\<close>.\<close>

definition default_drone :: "real \<Rightarrow> drone" where
  "default_drone now = init_drone 0.0 0.0 10.0 now"

definition consume_battery :: "real \<Rightarrow> drone \<Rightarrow> drone" where
  "consume_battery amount s = s\<lparr>battery_level := max 0 (battery_level s - amount)\<rparr>"

definition takeoff :: "drone \<Rightarrow> drone" where
  "takeoff s = s\<lparr>is_flying := True, altitude := 10.0, speed := 1.0\<rparr>"

definition land :: "drone \<Rightarrow> drone" where
  "land s = s\<lparr>is_flying := False, altitude := 0.0, speed := 0.0\<rparr>"

definition move_forward :: "drone \<Rightarrow> drone" where
  "move_forward s =
     (if is_flying s
      then consume_battery 0.2
             (s\<lparr>latitude := latitude s + movement_step s, speed := 2.0, heading := 0\<rparr>)
      else s)"

definition move_backward :: "drone \<Rightarrow> drone" where
  "move_backward s =
     (if is_flying s
      then consume_battery 0.2
             (s\<lparr>latitude := latitude s - movement_step s, speed := 2.0, heading := 180\<rparr>)
      else s)"

definition move_left :: "drone \<Rightarrow> drone" where
  "move_left s =
     (if is_flying s
      then consume_battery 0.2
             (s\<lparr>longitude := longitude s - movement_step s, speed := 2.0, heading := 270\<rparr>)
      else s)"

definition move_right :: "drone \<Rightarrow> drone" where
  "move_right s =
     (if is_flying s
      then consume_battery 0.2
             (s\<lparr>longitude := longitude s + movement_step s, speed := 2.0, heading := 90\<rparr>)
      else s)"

definition move_up :: "drone \<Rightarrow> drone" where
  "move_up s =
     (if is_flying s \<and> altitude s < max_altitude s
      then consume_battery 0.3 (s\<lparr>altitude := altitude s + 1.0\<rparr>)
      else s)"

definition move_down :: "drone \<Rightarrow> drone" where
  "move_down s =
     (if is_flying s \<and> altitude s > min_altitude s
      then consume_battery 0.1 (s\<lparr>altitude := altitude s - 1.0\<rparr>)
      else s)"

definition return_to_home :: "drone \<Rightarrow> drone" where
  "return_to_home s =
     (if is_flying s
      then consume_battery 0.5
             (s\<lparr>latitude := latitude s * 0.8 + initial_lat s * 0.2,
                longitude := longitude s * 0.8 + initial_lng s * 0.2,
                speed := 5.0\<rparr>)
      else s)"

definition emergency_stop :: "drone \<Rightarrow> drone" where
  "emergency_stop s = s\<lparr>speed := 0.0, altitude := 0.0, is_flying := False\<rparr>"

text \<open>
  \<open>update_status\<close>: \<open>current_time\<close> is the reading of \<open>time.time()\<close>, \<open>g\<close> the random
  generator. While flying the draws are, in order: the drift test, the two drift amounts
  (only when the test is below 0.3), the speed variation, the signal variation. On the
  ground only the signal variation is drawn.
\<close>

definition update_status :: "real \<Rightarrow> rng \<Rightarrow> drone \<Rightarrow> drone \<times> rng" where
  "update_status current_time g s =
     (let elapsed_time = current_time - last_update_time s in
      case (if is_flying s
            then (let s1 = consume_battery (0.05 * elapsed_time) s in
                  case random_random g of (r, g1) \<Rightarrow>
                  case (if r < 0.3
                        then (case random_uniform (- 0.00001) 0.00001 g1 of (dlat, g2) \<Rightarrow>
                              case random_uniform (- 0.00001) 0.00001 g2 of (dlon, g3) \<Rightarrow>
                                (s1\<lparr>latitude := latitude s1 + dlat,
                                    longitude := longitude s1 + dlon\<rparr>, g3))
                        else (s1, g1)) of (s2, g4) \<Rightarrow>
                  case random_uniform (- 0.2) 0.2 g4 of (dv, g5) \<Rightarrow>
                    (s2\<lparr>speed := max 0 (min (max_speed s2) (speed s2 + dv))\<rparr>, g5))
            else ((consume_battery (0.01 * elapsed_time) s)\<lparr>speed := 0.0\<rparr>, g))
      of (s3, g6) \<Rightarrow>
      case random_uniform (- 2) 2 g6 of (ds, g7) \<Rightarrow>
        (s3\<lparr>signal_strength := max 60 (min 100 (signal_strength s3 + ds)),
            last_update_time := current_time\<rparr>, g7))"

text \<open>The public operations, and a run of them from a state.\<close>

datatype drone_op =
    Takeoff | Land
  | MoveForward | MoveBackward | MoveLeft | MoveRight | MoveUp | MoveDown
  | ReturnToHome | EmergencyStop
  | UpdateStatus real rng

fun apply_op :: "drone_op \<Rightarrow> drone \<Rightarrow> drone" where
  "apply_op Takeoff s = takeoff s"
| "apply_op Land s = land s"
| "apply_op MoveForward s = move_forward s"
| "apply_op MoveBackward s = move_backward s"
| "apply_op MoveLeft s = move_left s"
| "apply_op MoveRight s = move_right s"
| "apply_op MoveUp s = move_up s"
| "apply_op MoveDown s = move_down s"
| "apply_op ReturnToHome s = return_to_home s"
| "apply_op EmergencyStop s = emergency_stop s"
| "apply_op (UpdateStatus current_time g) s = fst (update_status current_time g s)"

fun run_ops :: "drone_op list \<Rightarrow> drone \<Rightarrow> drone" where
  "run_ops [] s = s"
| "run_ops (x # xs) s = run_ops xs (apply_op x s)"

text \<open>
  A call of \<open>update_status\<close> sees the clock run forwards when the reading of
  \<open>time.time()\<close> is not earlier than the one stored in \<open>last_update_time\<close>.
\<close>

fun clock_ok :: "drone_op \<Rightarrow> drone \<Rightarrow> bool" where
  "clock_ok (UpdateStatus current_time g) s = (last_update_time s \<le> current_time)"
| "clock_ok x s = True"

fun clocks_ok :: "drone_op list \<Rightarrow> drone \<Rightarrow> bool" where
  "clocks_ok [] s = True"
| "clocks_ok (x # xs) s = (clock_ok x s \<and> clocks_ok xs (apply_op x s))"

text \<open>
  The distance of the drone from its home position, with the Euclidean distance that
  \<open>DetectionSimulator.distance\<close> uses for coordinates.
\<close>

definition home_distance :: "drone \<Rightarrow> real" where
  "home_distance s = sqrt ((latitude s - initial_lat s)\<^sup>2 + (longitude s - initial_lng s)\<^sup>2)"

text \<open>Concrete inputs for the examples: a generator whose every draw is 0.5, and a drone
  in flight away from home.\<close>

definition half_rng :: rng where
  "half_rng = (\<lambda>n. 1 / 2)"

definition away_drone :: drone where
  "away_drone = (takeoff (default_drone 0))\<lparr>latitude := 3, longitude := 4\<rparr>"

text \<open>The invariant behind the altitude range: in flight the altitude is a whole number
  of metres between the two limits.\<close>

definition altitude_inv :: "drone \<Rightarrow> bool" where
  "altitude_inv s \<longleftrightarrow> max_altitude s = 50 \<and> min_altitude s = 5 \<and>
     (is_flying s \<longrightarrow> altitude s \<in> \<int> \<and> 5 \<le> altitude s \<and> altitude s \<le> 50)"

section \<open>The detection simulator (detection_simulator.py)\<close>

text \<open>
  A hotspot is the dictionary \<open>{"lat", "lon", "radius", "probability"}\<close> of the source;
  the three lists are those of \<open>DetectionSimulator.__init__\<close>, every literal the double
  it denotes.
\<close>

record hotspot =
  lat :: real
  lon :: real
  radius :: real
  probability :: real

definition landmine_hotspots :: "hotspot list" where
  "landmine_hotspots =
     [\<lparr>lat = fl 34.0522, lon = - fl 118.2437, radius = fl 0.001, probability = fl 0.7\<rparr>,
      \<lparr>lat = fl 34.0530, lon = - fl 118.2450, radius = fl 0.0008, probability = fl 0.6\<rparr>,
      \<lparr>lat = fl 34.0515, lon = - fl 118.2420, radius = fl 0.0005, probability = fl 0.8\<rparr>]"

definition debris_hotspots :: "hotspot list" where
  "debris_hotspots =
     [\<lparr>lat = fl 34.0525, lon = - fl 118.2440, radius = fl 0.002, probability = fl 0.5\<rparr>,
      \<lparr>lat = fl 34.0518, lon = - fl 118.2435, radius = fl 0.001, probability = fl 0.4\<rparr>,
      \<lparr>lat = fl 34.0528, lon = - fl 118.2430, radius = fl 0.001, probability = fl 0.6\<rparr>]"

definition safe_hotspots :: "hotspot list" where
  "safe_hotspots =
     [\<lparr>lat = fl 34.0535, lon = - fl 118.2455, radius = fl 0.002, probability = fl 0.9\<rparr>,
      \<lparr>lat = fl 34.0510, lon = - fl 118.2415, radius = fl 0.001, probability = fl 0.8\<rparr>]"

text \<open>
  \<open>math.sqrt((lat1 - lat2) ** 2 + (lon1 - lon2) ** 2)\<close> in double arithmetic. A square
  that \<open>pow\<close> returns is not negative, so \<open>math.sqrt\<close> does not raise.
\<close>

definition distance :: "libm_pow2 \<Rightarrow> real \<Rightarrow> real \<Rightarrow> real \<Rightarrow> real \<Rightarrow> real" where
  "distance pow2 lat1 lon1 lat2 lon2 =
     fsqrt (fadd (pow2 (fsub lat1 lat2)) (pow2 (fsub lon1 lon2)))"

text \<open>
  One of the three \<open>for\<close> loops of \<open>is_near_hotspot\<close>: \<open>random.random()\<close> is called
  for a hotspot only when the query point is within its radius, and the loop returns at the
  first draw below the hotspot's probability.
\<close>

fun scan_hotspots ::
  "libm_pow2 \<Rightarrow> string \<Rightarrow> hotspot list \<Rightarrow> real \<Rightarrow> real \<Rightarrow> rng
     \<Rightarrow> (string \<times> real) option \<times> rng" where
  "scan_hotspots pow2 label [] qlat qlon g = (None, g)"
| "scan_hotspots pow2 label (h # hs) qlat qlon g =
     (if distance pow2 qlat qlon (lat h) (lon h) < radius h
      then (case random_random g of (u, g') \<Rightarrow>
              if u < probability h then (Some (label, fmul (probability h) 100), g')
              else scan_hotspots pow2 label hs qlat qlon g')
      else scan_hotspots pow2 label hs qlat qlon g)"

text \<open>
  \<open>random.choices(population, weights)[0]\<close> as CPython computes it: the cumulative
  weights (\<open>itertools.accumulate\<close>), one draw scaled by their total, and \<open>bisect\<close> (the
  number of cumulative weights not above the scaled draw, among the first \<open>hi\<close>).
\<close>

fun accumulate_from :: "real \<Rightarrow> real list \<Rightarrow> real list" where
  "accumulate_from acc [] = []"
| "accumulate_from acc (w # ws) = fadd acc w # accumulate_from (fadd acc w) ws"

fun accumulate :: "real list \<Rightarrow> real list" where
  "accumulate [] = []"
| "accumulate (w # ws) = w # accumulate_from w ws"

definition bisect :: "real list \<Rightarrow> real \<Rightarrow> nat \<Rightarrow> nat" where
  "bisect a x hi = length (takeWhile (\<lambda>c. c \<le> x) (take hi a))"

definition random_choices :: "'a list \<Rightarrow> real list \<Rightarrow> rng \<Rightarrow> 'a \<times> rng" where
  "random_choices population weights g =
     (case random_random g of (u, g') \<Rightarrow>
        (let cum_weights = accumulate weights;
             total_weight = fadd (last cum_weights) 0.0;
             hi = length population - 1
         in (population ! bisect cum_weights (fmul u total_weight) hi, g')))"

text \<open>
  \<open>random.uniform(a, b)\<close> is \<open>a + (b - a) * random()\<close>; the simulator calls it with
  the integers 70 and 95.
\<close>

definition uniform :: "int \<Rightarrow> int \<Rightarrow> rng \<Rightarrow> real \<times> rng" where
  "uniform a b g =
     (case random_random g of (u, g') \<Rightarrow> (fadd (of_int a) (fmul (of_int (b - a)) u), g'))"

text \<open>
  \<open>is_near_hotspot\<close> returns the pair \<open>(detection_type, confidence)\<close>; the generator
  after the call is returned with it.
\<close>

definition is_near_hotspot ::
  "libm_pow2 \<Rightarrow> real \<Rightarrow> real \<Rightarrow> rng \<Rightarrow> (string option \<times> real) \<times> rng" where
  "is_near_hotspot pow2 qlat qlon g =
     (case scan_hotspots pow2 ''Landmine'' landmine_hotspots qlat qlon g of
        (Some (t, c), g1) \<Rightarrow> ((Some t, c), g1)
      | (None, g1) \<Rightarrow>
     (case scan_hotspots pow2 ''Metal Debris'' debris_hotspots qlat qlon g1 of
        (Some (t, c), g2) \<Rightarrow> ((Some t, c), g2)
      | (None, g2) \<Rightarrow>
     (case scan_hotspots pow2 ''Safe Zone'' safe_hotspots qlat qlon g2 of
        (Some (t, c), g3) \<Rightarrow> ((Some t, c), g3)
      | (None, g3) \<Rightarrow>
     (case random_random g3 of (r, g4) \<Rightarrow>
        if r < fl 0.05
        then (case random_choices [''Landmine'', ''Metal Debris'', ''Safe Zone'']
                     [fl 0.2, fl 0.5, fl 0.3] g4
                of (detection_type, g5) \<Rightarrow>
              case uniform 70 95 g5 of (confidence, g6) \<Rightarrow>
                ((Some detection_type, confidence), g6))
        else ((None, 0), g4)))))"

text \<open>
  The words of the claim about \<open>is_near_hotspot\<close>: the hotspots in the order they are
  scanned, each with the classification its list stands for; those of them within range of
  a query point; one scan over such a list; and what happens when no hotspot matches.
\<close>

definition scan_order :: "(string \<times> hotspot) list" where
  "scan_order = map (Pair ''Landmine'') landmine_hotspots
              @ map (Pair ''Metal Debris'') debris_hotspots
              @ map (Pair ''Safe Zone'') safe_hotspots"

definition near_hotspots :: "libm_pow2 \<Rightarrow> real \<Rightarrow> real \<Rightarrow> (string \<times> hotspot) list" where
  "near_hotspots pow2 qlat qlon =
     filter (\<lambda>(label, h). distance pow2 qlat qlon (lat h) (lon h) < radius h) scan_order"

fun scan_labelled ::
  "libm_pow2 \<Rightarrow> (string \<times> hotspot) list \<Rightarrow> real \<Rightarrow> real \<Rightarrow> rng
     \<Rightarrow> (string \<times> real) option \<times> rng" where
  "scan_labelled pow2 [] qlat qlon g = (None, g)"
| "scan_labelled pow2 ((label, h) # hs) qlat qlon g =
     (if distance pow2 qlat qlon (lat h) (lon h) < radius h
      then (if g 0 < probability h
            then (Some (label, fl (probability h * 100)), \<lambda>n. g (Suc n))
            else scan_labelled pow2 hs qlat qlon (\<lambda>n. g (Suc n)))
      else scan_labelled pow2 hs qlat qlon g)"

definition fallback :: "rng \<Rightarrow> string option \<times> real" where
  "fallback g =
     (if g 0 < fl 0.05
      then (Some (fst (random_choices [''Landmine'', ''Metal Debris'', ''Safe Zone'']
                         [fl 0.2, fl 0.5, fl 0.3] (\<lambda>n. g (Suc n)))),
            fl (70 + fl (25 * g 2)))
      else (None, 0))"

text \<open>
  Python values that appear in a detection dictionary, and the dictionary itself.
\<close>

datatype pyval = PyNone | PyStr string | PyInt int | PyFloat real | PyDateTime real

type_synonym pydict = "string \<rightharpoonup> pyval"

text \<open>
  \<open>utils.generate_unique_id\<close> returns \<open>str(uuid.uuid4())\<close>: the identifiers the
  operating system hands out are a sequence, each call takes the next one.
\<close>

type_synonym uuid_source = "nat \<Rightarrow> string"

definition generate_unique_id :: "uuid_source \<Rightarrow> string \<times> uuid_source" where
  "generate_unique_id u = (u 0, \<lambda>n. u (Suc n))"

text \<open>
  \<open>check_for_detection\<close>; \<open>now\<close> is the value of \<open>datetime.now()\<close>. The test
  \<open>if detection_type:\<close> holds for a string that is not empty.
\<close>

definition check_for_detection ::
  "libm_pow2 \<Rightarrow> real \<Rightarrow> real \<Rightarrow> real \<Rightarrow> rng \<Rightarrow> uuid_source
     \<Rightarrow> pydict option \<times> rng \<times> uuid_source" where
  "check_for_detection pow2 qlat qlon now g u =
     (case is_near_hotspot pow2 qlat qlon g of ((detection_type, confidence), g') \<Rightarrow>
        (case detection_type of
           Some t \<Rightarrow>
             if t \<noteq> []
             then (case generate_unique_id u of (new_id, u') \<Rightarrow>
                     (Some [''id'' \<mapsto> PyStr new_id,
                            ''timestamp'' \<mapsto> PyDateTime now,
                            ''latitude'' \<mapsto> PyFloat qlat,
                            ''longitude'' \<mapsto> PyFloat qlon,
                            ''classification'' \<mapsto> PyStr t,
                            ''confidence'' \<mapsto> PyFloat confidence], g', u'))
             else (None, g', u)
         | None \<Rightarrow> (None, g', u)))"

text \<open>
  Successive calls of \<open>check_for_detection\<close>, each at a position and a clock reading,
  on the same random generator and identifier source; the records returned, in order.
\<close>

fun check_positions ::
  "libm_pow2 \<Rightarrow> (real \<times> real \<times> real) list \<Rightarrow> rng \<Rightarrow> uuid_source \<Rightarrow> pydict list" where
  "check_positions pow2 [] g u = []"
| "check_positions pow2 ((qlat, qlon, now) # ps) g u =
     (case check_for_detection pow2 qlat qlon now g u of
        (None, g', u') \<Rightarrow> check_positions pow2 ps g' u'
      | (Some d, g', u') \<Rightarrow> d # check_positions pow2 ps g' u')"

section \<open>The persistence layer (db.py)\<close>

text \<open>
  The exceptions of the model, and the two ways \<open>save_detection\<close> reads its argument:
  \<open>d[k]\<close> raises \<open>KeyError\<close> on a missing key, \<open>d.get(k)\<close> returns \<open>None\<close>.
\<close>

datatype py_exception =
    KeyError string | IntegrityError string | FileNotFoundError string | ValueError string
  | OSError string

definition subscript :: "pydict \<Rightarrow> string \<Rightarrow> py_exception + pyval" where
  "subscript d k = (case d k of None \<Rightarrow> Inl (KeyError k) | Some v \<Rightarrow> Inr v)"

definition dict_get :: "pydict \<Rightarrow> string \<Rightarrow> pyval" where
  "dict_get d k = (case d k of None \<Rightarrow> PyNone | Some v \<Rightarrow> v)"

text \<open>
  A row of the table \<open>detections\<close> (the columns of class \<open>Detection\<close>), and the table.
\<close>

record detection_row =
  row_id :: pyval
  row_timestamp :: pyval
  row_latitude :: pyval
  row_longitude :: pyval
  row_classification :: pyval
  row_confidence :: pyval
  row_image_path :: pyval
  row_x :: pyval
  row_y :: pyval
  row_width :: pyval
  row_height :: pyval

type_synonym detections_table = "detection_row list"

text \<open>
  SQLAlchemy and SQLite are not code of this repository. What the engine does with one
  \<open>INSERT\<close> is a parameter of the model: the table after it, or the exception it raises.
  A session holds the committed table and the objects added since; \<open>commit\<close> flushes the
  added objects and makes the result durable only when every insert succeeded.
\<close>

type_synonym db_insert = "detections_table \<Rightarrow> detection_row \<Rightarrow> py_exception + detections_table"

record db_session =
  database :: detections_table
  new_objects :: "detection_row list"

definition SessionLocal :: "detections_table \<Rightarrow> db_session" where
  "SessionLocal db = \<lparr>database = db, new_objects = []\<rparr>"

definition db_add :: "detection_row \<Rightarrow> db_session \<Rightarrow> db_session" where
  "db_add r s = s\<lparr>new_objects := new_objects s @ [r]\<rparr>"

fun flush :: "db_insert \<Rightarrow> detections_table \<Rightarrow> detection_row list \<Rightarrow> py_exception + detections_table" where
  "flush ins table [] = Inr table"
| "flush ins table (r # rs) =
     (case ins table r of Inl e \<Rightarrow> Inl e | Inr table' \<Rightarrow> flush ins table' rs)"

definition db_commit :: "db_insert \<Rightarrow> db_session \<Rightarrow> (py_exception + unit) \<times> db_session" where
  "db_commit ins s =
     (case flush ins (database s) (new_objects s) of
        Inl e \<Rightarrow> (Inl e, s)
      | Inr table \<Rightarrow> (Inr (), s\<lparr>database := table, new_objects := []\<rparr>))"

definition db_rollback :: "db_session \<Rightarrow> db_session" where
  "db_rollback s = s\<lparr>new_objects := []\<rparr>"

definition db_close :: "db_session \<Rightarrow> detections_table" where
  "db_close s = database s"

text \<open>
  The constructor call \<open>Detection(id=detection_data['id'], ...)\<close>: the six subscripts
  are evaluated in the order written, then the five \<open>get\<close>s.
\<close>

definition new_detection :: "pydict \<Rightarrow> py_exception + detection_row" where
  "new_detection detection_data =
     (case subscript detection_data ''id'' of Inl e \<Rightarrow> Inl e | Inr v_id \<Rightarrow>
      case subscript detection_data ''timestamp'' of Inl e \<Rightarrow> Inl e | Inr v_timestamp \<Rightarrow>
      case subscript detection_data ''latitude'' of Inl e \<Rightarrow> Inl e | Inr v_latitude \<Rightarrow>
      case subscript detection_data ''longitude'' of Inl e \<Rightarrow> Inl e | Inr v_longitude \<Rightarrow>
      case subscript detection_data ''classification'' of Inl e \<Rightarrow> Inl e | Inr v_classification \<Rightarrow>
      case subscript detection_data ''confidence'' of Inl e \<Rightarrow> Inl e | Inr v_confidence \<Rightarrow>
        Inr \<lparr>row_id = v_id, row_timestamp = v_timestamp, row_latitude = v_latitude,
             row_longitude = v_longitude, row_classification = v_classification,
             row_confidence = v_confidence,
             row_image_path = dict_get detection_data ''image_path'',
             row_x = dict_get detection_data ''x'',
             row_y = dict_get detection_data ''y'',
             row_width = dict_get detection_data ''width'',
             row_height = dict_get detection_data ''height''\<rparr>)"

text \<open>
  \<open>save_detection\<close>: the body of the \<open>try\<close>, then the function with its
  \<open>except Exception\<close> and \<open>finally\<close> clauses. The message printed is left out.
\<close>

definition save_detection_try ::
  "db_insert \<Rightarrow> pydict \<Rightarrow> db_session \<Rightarrow> (py_exception + bool) \<times> db_session" where
  "save_detection_try ins detection_data db =
     (case new_detection detection_data of
        Inl e \<Rightarrow> (Inl e, db)
      | Inr detection \<Rightarrow>
          (case db_commit ins (db_add detection db) of
             (Inl e, db') \<Rightarrow> (Inl e, db')
           | (Inr u, db') \<Rightarrow> (Inr True, db')))"

definition save_detection :: "db_insert \<Rightarrow> pydict \<Rightarrow> detections_table \<Rightarrow> bool \<times> detections_table" where
  "save_detection ins detection_data store =
     (case save_detection_try ins detection_data (SessionLocal store) of
        (Inr result, db) \<Rightarrow> (result, db_close db)
      | (Inl e, db) \<Rightarrow> (False, db_close (db_rollback db)))"

text \<open>
  An engine for the examples, after the column declarations of class \<open>Detection\<close>:
  \<open>id\<close> is the primary key, and \<open>latitude\<close>, \<open>longitude\<close>, \<open>classification\<close> and
  \<open>confidence\<close> are declared \<open>nullable=False\<close>.
\<close>

definition insert_detection :: db_insert where
  "insert_detection table r =
     (if row_id r = PyNone \<or> row_latitude r = PyNone \<or> row_longitude r = PyNone
         \<or> row_classification r = PyNone \<or> row_confidence r = PyNone
      then Inl (IntegrityError ''NOT NULL constraint failed'')
      else if row_id r \<in> set (map row_id table)
      then Inl (IntegrityError ''UNIQUE constraint failed: detections.id'')
      else Inr (table @ [r]))"

section \<open>The image processor (image_processor.py)\<close>

text \<open>
  \<open>datetime.datetime.now()\<close> is read once for every detection: the readings are a
  sequence, as the random draws are.
\<close>

type_synonym clock = "nat \<Rightarrow> real"

definition datetime_now :: "clock \<Rightarrow> real \<times> clock" where
  "datetime_now c = (c 0, \<lambda>n. c (Suc n))"

text \<open>The test \<open>sub in s\<close> on strings.\<close>

fun str_contains :: "string \<Rightarrow> string \<Rightarrow> bool" where
  "str_contains sub [] = (sub = [])"
| "str_contains sub (c # cs) = (take (length sub) (c # cs) = sub \<or> str_contains sub cs)"

text \<open>
  What \<open>detect_landmines\<close> takes from OpenCV and the file system: whether the path
  exists, the image \<open>cv2.imread\<close> returns (\<open>None\<close> when it cannot decode the file), the
  contours the threshold pipeline finds with their area, perimeter and bounding box, the
  path \<open>os.path\<close> computes for the processed image, and the exception, if any, that
  \<open>os.makedirs\<close> or \<open>cv2.imwrite\<close> raises when the processed image is saved.
\<close>

record contour =
  area :: real
  perimeter :: real
  bounding_rect :: "int \<times> int \<times> int \<times> int"

record 'img cv_env =
  path_exists :: "string \<Rightarrow> bool"
  imread :: "string \<Rightarrow> 'img option"
  find_contours :: "'img \<Rightarrow> py_exception + contour list"
  output_path :: "string \<Rightarrow> string"
  write_processed :: "string \<Rightarrow> py_exception option"

text \<open>The fields of \<open>LandmineDetector\<close> that \<open>detect_landmines\<close> writes, and its constants.\<close>

record landmine_detector =
  processed_images :: "string \<rightharpoonup> string"
  detection_results :: "string \<rightharpoonup> pydict list"

definition detection_size_min :: real where "detection_size_min = 15"

definition detection_size_max :: real where "detection_size_max = 120"

definition circularity_threshold :: real where "circularity_threshold = 0.65"

definition predefined_landmines :: "(int \<times> int \<times> int \<times> int \<times> real \<times> string) list" where
  "predefined_landmines =
     [(146, 164, 35, 33, 93.5, ''Landmine''),
      (396, 139, 37, 35, 93.0, ''Landmine''),
      (143, 367, 40, 38, 84.0, ''Landmine''),
      (391, 389, 42, 40, 94.0, ''Landmine'')]"

text \<open>The detection dictionary both branches build.\<close>

definition make_detection ::
  "string \<Rightarrow> real \<Rightarrow> string \<Rightarrow> int \<Rightarrow> int \<Rightarrow> int \<Rightarrow> int \<Rightarrow> real \<Rightarrow> string \<Rightarrow> pydict" where
  "make_detection new_id now image_path x y w h confidence classification =
     [''id'' \<mapsto> PyStr new_id,
      ''timestamp'' \<mapsto> PyDateTime now,
      ''image_path'' \<mapsto> PyStr image_path,
      ''x'' \<mapsto> PyInt x,
      ''y'' \<mapsto> PyInt y,
      ''width'' \<mapsto> PyInt w,
      ''height'' \<mapsto> PyInt h,
      ''confidence'' \<mapsto> PyFloat confidence,
      ''classification'' \<mapsto> PyStr classification,
      ''latitude'' \<mapsto> PyFloat (34.0522 + real_of_int y / 1000),
      ''longitude'' \<mapsto> PyFloat (- 118.2437 + real_of_int x / 1000)]"

text \<open>
  The loop over \<open>predefined_landmines\<close>, and the loop over the contours. Drawing on the
  image does not change what is returned and is left out.
\<close>

fun predefined_detections ::
  "string \<Rightarrow> (int \<times> int \<times> int \<times> int \<times> real \<times> string) list \<Rightarrow> clock \<Rightarrow> uuid_source
     \<Rightarrow> pydict list \<times> clock \<times> uuid_source" where
  "predefined_detections image_path [] c u = ([], c, u)"
| "predefined_detections image_path ((x, y, w, h, confidence, classification) # rest) c u =
     (case generate_unique_id u of (new_id, u1) \<Rightarrow>
      case datetime_now c of (now, c1) \<Rightarrow>
      case predefined_detections image_path rest c1 u1 of (detections, c2, u2) \<Rightarrow>
        (make_detection new_id now image_path x y w h confidence classification # detections,
         c2, u2))"

fun contour_detections ::
  "string \<Rightarrow> contour list \<Rightarrow> clock \<Rightarrow> uuid_source \<Rightarrow> pydict list \<times> clock \<times> uuid_source" where
  "contour_detections image_path [] c u = ([], c, u)"
| "contour_detections image_path (cnt # rest) c u =
     (if area cnt < detection_size_min \<or> area cnt > detection_size_max
      then contour_detections image_path rest c u
      else
        (let circularity = (if perimeter cnt > 0
                            then 4 * pi * area cnt / (perimeter cnt * perimeter cnt) else 0)
         in if circularity < circularity_threshold
            then contour_detections image_path rest c u
            else
              (let confidence = min 0.95 ((circularity * 0.7 + (area cnt / detection_size_max) * 0.3) * 100)
               in case bounding_rect cnt of (x, y, w, h) \<Rightarrow>
                  case generate_unique_id u of (new_id, u1) \<Rightarrow>
                  case datetime_now c of (now, c1) \<Rightarrow>
                  case contour_detections image_path rest c1 u1 of (detections, c2, u2) \<Rightarrow>
                    (make_detection new_id now image_path x y w h confidence
                       (if confidence > 80 then ''Landmine'' else ''Metal Debris'') # detections,
                     c2, u2))))"

text \<open>\<open>for detection in detections: save_detection(detection)\<close>; the results are ignored.\<close>

fun save_detections :: "db_insert \<Rightarrow> pydict list \<Rightarrow> detections_table \<Rightarrow> detections_table" where
  "save_detections ins [] store = store"
| "save_detections ins (d # ds) store = save_detections ins ds (snd (save_detection ins d store))"

text \<open>
  \<open>detect_landmines\<close>: the body of the \<open>try\<close>, then the function with its
  \<open>except Exception\<close> clause, which returns the empty list.
\<close>

definition detect_landmines_try ::
  "'img cv_env \<Rightarrow> db_insert \<Rightarrow> string \<Rightarrow> landmine_detector \<Rightarrow> clock \<Rightarrow> uuid_source
     \<Rightarrow> detections_table
     \<Rightarrow> py_exception + (pydict list \<times> landmine_detector \<times> detections_table)" where
  "detect_landmines_try env ins image_path self c u store =
     (if \<not> path_exists env image_path then Inl (FileNotFoundError image_path)
      else case imread env image_path of
        None \<Rightarrow> Inl (ValueError image_path)
      | Some img \<Rightarrow>
         (case (if str_contains ''landmine_detection1.jpg'' image_path
                then Inr (predefined_detections image_path predefined_landmines c u)
                else (case find_contours env img of
                        Inl e \<Rightarrow> Inl e
                      | Inr contours \<Rightarrow> Inr (contour_detections image_path contours c u))) of
            Inl e \<Rightarrow> Inl e
          | Inr (detections, c', u') \<Rightarrow>
             (case write_processed env image_path of
                Some e \<Rightarrow> Inl e
              | None \<Rightarrow>
                 Inr (detections,
                      self\<lparr>processed_images :=
                              (processed_images self)(image_path \<mapsto> output_path env image_path),
                            detection_results :=
                              (detection_results self)(image_path \<mapsto> detections)\<rparr>,
                      save_detections ins detections store))))"

definition detect_landmines ::
  "'img cv_env \<Rightarrow> db_insert \<Rightarrow> string \<Rightarrow> landmine_detector \<Rightarrow> clock \<Rightarrow> uuid_source
     \<Rightarrow> detections_table \<Rightarrow> pydict list \<times> landmine_detector \<times> detections_table" where
  "detect_landmines env ins image_path self c u store =
     (case detect_landmines_try env ins image_path self c u store of
        Inr result \<Rightarrow> result
      | Inl e \<Rightarrow> ([], self, store))"

section \<open>Concrete inputs for the examples\<close>

text \<open>
  Generators, identifier sources and clocks with a fixed pattern; a detection dictionary
  and its row; the record \<open>check_for_detection\<close> returns at the centre of the first
  landmine hotspot; an environment in which the demo image is processed, and one whose
  output directory cannot be written.
\<close>

definition low_rng :: rng where
  "low_rng = (\<lambda>n. 1 / 128)"

definition count_ids :: uuid_source where
  "count_ids = (\<lambda>n. replicate (Suc n) CHR ''a'')"

definition centre_record :: pydict where
  "centre_record = [''id'' \<mapsto> PyStr ''a'', ''timestamp'' \<mapsto> PyDateTime 0,
                ''latitude'' \<mapsto> PyFloat 34.0522, ''longitude'' \<mapsto> PyFloat (- 118.2437),
                ''classification'' \<mapsto> PyStr ''Landmine'', ''confidence'' \<mapsto> PyFloat 70]"

definition hotspot_record :: pydict where
  "hotspot_record = [''id'' \<mapsto> PyStr ''a'', ''timestamp'' \<mapsto> PyDateTime 0,
                ''latitude'' \<mapsto> PyFloat (fl 34.0522),
                ''longitude'' \<mapsto> PyFloat (- fl 118.2437),
                ''classification'' \<mapsto> PyStr ''Landmine'', ''confidence'' \<mapsto> PyFloat 70]"

definition centre_row :: detection_row where
  "centre_row = \<lparr>row_id = PyStr ''a'', row_timestamp = PyDateTime 0,
      row_latitude = PyFloat 34.0522, row_longitude = PyFloat (- 118.2437),
      row_classification = PyStr ''Landmine'', row_confidence = PyFloat 70,
      row_image_path = PyNone, row_x = PyNone, row_y = PyNone,
      row_width = PyNone, row_height = PyNone\<rparr>"

definition demo_path :: string where
  "demo_path = ''sample_images/landmine_detection1.jpg''"

definition tick_clock :: clock where
  "tick_clock = (\<lambda>n. real n)"

definition new_detector :: landmine_detector where
  "new_detector = \<lparr>processed_images = Map.empty, detection_results = Map.empty\<rparr>"

definition demo_env :: "unit cv_env" where
  "demo_env = \<lparr>path_exists = (\<lambda>p. True), imread = (\<lambda>p. Some ()),
               find_contours = (\<lambda>i. Inr []), output_path = (\<lambda>p. ''processed/'' @ p),
               write_processed = (\<lambda>p. None)\<rparr>"

definition readonly_env :: "unit cv_env" where
  "readonly_env = demo_env\<lparr>write_processed := (\<lambda>p. Some (OSError ''Read-only file system''))\<rparr>"

text \<open>The fields of a detection that the claim about the demo image names.\<close>

definition detection_summary ::
  "pydict \<Rightarrow> pyval option \<times> pyval option \<times> pyval option \<times> pyval option \<times> pyval option
     \<times> pyval option \<times> pyval option \<times> pyval option" where
  "detection_summary d =
     (d ''x'', d ''y'', d ''width'', d ''height'', d ''confidence'', d ''classification'',
      d ''latitude'', d ''longitude'')"

section \<open>Properties of the drone simulator\<close>

lemmas drone_defs = consume_battery_def takeoff_def land_def move_forward_def move_backward_def
  move_left_def move_right_def move_up_def move_down_def return_to_home_def emergency_stop_def

lemmas rng_defs = random_random_def random_uniform_def

text \<open>What \<open>update_status\<close> does to the fields the claims are about.\<close>

lemma update_status_battery:
  "battery_level (fst (update_status t g s)) =
     max 0 (battery_level s - (if is_flying s then 0.05 else 0.01) * (t - last_update_time s))"
  by (simp add: update_status_def Let_def rng_defs consume_battery_def split: prod.splits)

lemma update_status_frame:
  "is_flying (fst (update_status t g s)) = is_flying s"
  "altitude (fst (update_status t g s)) = altitude s"
  "max_altitude (fst (update_status t g s)) = max_altitude s"
  "min_altitude (fst (update_status t g s)) = min_altitude s"
  "movement_step (fst (update_status t g s)) = movement_step s"
  by (simp_all add: update_status_def Let_def rng_defs consume_battery_def split: prod.splits)

lemma int_real_lt_succ: "x \<in> \<int> \<Longrightarrow> x < 50 \<Longrightarrow> x + 1 \<le> (50::real)"
proof -
  assume "x \<in> \<int>" and lt: "x < 50"
  then obtain k :: int where k: "x = of_int k" by (auto elim: Ints_cases)
  from lt k have "k < 50" by simp
  then have "k + 1 \<le> 50" by simp
  then have "(of_int (k + 1) :: real) \<le> of_int 50" by (simp only: of_int_le_iff)
  then show ?thesis using k by simp
qed

lemma int_real_gt_pred: "x \<in> \<int> \<Longrightarrow> 5 < x \<Longrightarrow> (5::real) \<le> x - 1"
proof -
  assume "x \<in> \<int>" and lt: "5 < x"
  then obtain k :: int where k: "x = of_int k" by (auto elim: Ints_cases)
  from lt k have "5 < k" by simp
  then have "5 \<le> k - 1" by simp
  then have "(of_int 5 :: real) \<le> of_int (k - 1)" by (simp only: of_int_le_iff)
  then show ?thesis using k by simp
qed

lemma altitude_inv_step: "altitude_inv s \<Longrightarrow> altitude_inv (apply_op x s)"
proof (cases x)
  case MoveUp
  assume "altitude_inv s"
  then show ?thesis using MoveUp int_real_lt_succ [of "altitude s"]
    by (auto simp: altitude_inv_def drone_defs)
next
  case MoveDown
  assume "altitude_inv s"
  then show ?thesis using MoveDown int_real_gt_pred [of "altitude s"]
    by (auto simp: altitude_inv_def drone_defs)
next
  case (UpdateStatus t g)
  assume "altitude_inv s"
  then show ?thesis using UpdateStatus
    by (simp add: altitude_inv_def update_status_frame)
qed (auto simp: altitude_inv_def drone_defs)

lemma altitude_inv_run: "altitude_inv s \<Longrightarrow> altitude_inv (run_ops xs s)"
  by (induction xs arbitrary: s) (simp_all add: altitude_inv_step)

lemma altitude_inv_init: "altitude_inv (init_drone a b c t)"
  by (simp add: altitude_inv_def init_drone_def)

text \<open>
  Claim C2. In every state reached from a simulator constructed with the default arguments
  by any sequence of the public operations, a drone that is flying has an altitude between
  5.0 and 50.0. (The altitude is 10.0 after take-off and changes by whole metres only, so
  the two guards of \<open>move_up\<close> and \<open>move_down\<close> stop it exactly at the limits.)
\<close>

theorem flying_altitude_in_range:
  "is_flying (run_ops ops (default_drone now)) \<longrightarrow>
     5.0 \<le> altitude (run_ops ops (default_drone now)) \<and>
     altitude (run_ops ops (default_drone now)) \<le> 50.0 \<and>
     min_altitude (run_ops ops (default_drone now)) = 5.0 \<and>
     max_altitude (run_ops ops (default_drone now)) = 50.0"
  using altitude_inv_run [OF altitude_inv_init, of ops 0 0 10 now]
  by (simp add: altitude_inv_def default_drone_def)

theorem flying_altitude_in_range_witness:
  "is_flying (run_ops [Takeoff, MoveUp, UpdateStatus 3 half_rng, MoveDown, MoveDown] (default_drone 0)) \<and>
     5.0 \<le> altitude (run_ops [Takeoff, MoveUp, UpdateStatus 3 half_rng, MoveDown, MoveDown] (default_drone 0)) \<and>
     altitude (run_ops [Takeoff, MoveUp, UpdateStatus 3 half_rng, MoveDown, MoveDown] (default_drone 0)) \<le> 50.0"
  using flying_altitude_in_range [of "[Takeoff, MoveUp, UpdateStatus 3 half_rng, MoveDown, MoveDown]" 0]
  by (simp add: default_drone_def init_drone_def drone_defs update_status_frame)

lemma consume_battery_nonneg: "0 \<le> battery_level (consume_battery a s)"
  by (simp add: consume_battery_def)

lemma apply_op_battery_nonneg: "0 \<le> battery_level s \<Longrightarrow> 0 \<le> battery_level (apply_op x s)"
  by (cases x) (simp_all add: drone_defs update_status_battery)

lemma apply_op_battery_le:
  "0 \<le> battery_level s \<Longrightarrow> clock_ok x s \<Longrightarrow> battery_level (apply_op x s) \<le> battery_level s"
proof (cases x)
  case (UpdateStatus t g)
  assume b: "0 \<le> battery_level s" and c: "clock_ok x s"
  from c UpdateStatus have "0 \<le> t - last_update_time s" by simp
  then have "0 \<le> (if is_flying s then 0.05 else 0.01) * (t - last_update_time s)"
    by simp
  with b show ?thesis using UpdateStatus by (simp add: update_status_battery)
qed (auto simp: drone_defs)

lemma run_ops_battery_nonneg: "0 \<le> battery_level s \<Longrightarrow> 0 \<le> battery_level (run_ops xs s)"
  by (induction xs arbitrary: s) (simp_all add: apply_op_battery_nonneg)

lemma run_ops_battery_le:
  "0 \<le> battery_level s \<Longrightarrow> clocks_ok xs s \<Longrightarrow> battery_level (run_ops xs s) \<le> battery_level s"
proof (induction xs arbitrary: s)
  case Nil
  then show ?case by simp
next
  case (Cons x xs)
  have "battery_level (run_ops xs (apply_op x s)) \<le> battery_level (apply_op x s)"
    using Cons by (simp add: apply_op_battery_nonneg)
  also have "\<dots> \<le> battery_level s" using Cons.prems by (simp add: apply_op_battery_le)
  finally show ?case by simp
qed

text \<open>
  The battery level is never negative, and it does not rise, nor exceed its starting value,
  as long as no \<open>update_status\<close> reads a clock value earlier than the stored
  \<open>last_update_time\<close>.
\<close>

lemma battery_nonneg:
  "0 \<le> battery_level (run_ops ops (init_drone ilat ilng ialt now))"
  using run_ops_battery_nonneg [of "init_drone ilat ilng ialt now" ops]
  by (simp add: init_drone_def)

lemma battery_le_100_forward_clock:
  assumes "clocks_ok ops (init_drone ilat ilng ialt now)"
  shows "battery_level (run_ops ops (init_drone ilat ilng ialt now)) \<le> 100"
  using run_ops_battery_le [of "init_drone ilat ilng ialt now" ops] assms
  by (simp add: init_drone_def)

text \<open>
  Claim C6 (the battery level is between 0 and 100 in every reachable state) does not hold
  of the code. \<open>update_status\<close> passes \<open>0.01 * elapsed_time\<close> (\<open>0.05 * elapsed_time\<close> in
  flight) to \<open>_consume_battery\<close>, and the elapsed time is negative when \<open>time.time()\<close>
  returns less than the stored \<open>last_update_time\<close>: a simulator constructed at time 1000
  whose \<open>update_status\<close> reads 999 has battery level 100.01.
\<close>

theorem battery_above_100_after_clock_step_back:
  "battery_level (run_ops [UpdateStatus 999 half_rng] (default_drone 1000)) = 100.01
   \<and> \<not> battery_level (run_ops [UpdateStatus 999 half_rng] (default_drone 1000)) \<le> 100"
  by (simp add: default_drone_def init_drone_def update_status_battery)

text \<open>
  Claim C9 (no operation raises the battery level) does not hold of the code, by the same
  defect: at the freshly constructed simulator (time 1000) an \<open>update_status\<close> that reads
  the clock value 999 raises the battery level from 100 to 100.01.
\<close>

theorem battery_rises_after_clock_step_back:
  "battery_level (default_drone 1000) = 100
   \<and> battery_level (apply_op (UpdateStatus 999 half_rng) (default_drone 1000)) = 100.01
   \<and> \<not> battery_level (apply_op (UpdateStatus 999 half_rng) (default_drone 1000))
         \<le> battery_level (default_drone 1000)"
  by (simp add: default_drone_def init_drone_def update_status_battery)

lemma run_ops_movement_step: "movement_step (run_ops xs s) = movement_step s"
proof (induction xs arbitrary: s)
  case (Cons x xs)
  have "movement_step (apply_op x s) = movement_step s"
    by (cases x) (simp_all add: drone_defs update_status_frame)
  with Cons show ?case by simp
qed simp

text \<open>
  Claim C3. In every flying state of a simulator, \<open>move_forward\<close> adds
  \<open>movement_step = 0.0001\<close> to the latitude, sets the speed to 2.0 and the heading to 0,
  and lowers the battery level by 0.2, not below 0; every other field (longitude, altitude,
  \<open>is_flying\<close>, \<dots>) is unchanged. \<open>move_backward\<close> subtracts from the latitude with
  heading 180, \<open>move_left\<close> subtracts from the longitude with heading 270, \<open>move_right\<close>
  adds to the longitude with heading 90.
\<close>

theorem horizontal_moves:
  assumes "s = run_ops ops (init_drone ilat ilng ialt now)" and "is_flying s"
  shows "movement_step s = 0.0001
     \<and> move_forward s = s\<lparr>latitude := latitude s + 0.0001, speed := 2.0, heading := 0,
            battery_level := max 0 (battery_level s - 0.2)\<rparr>
     \<and> move_backward s = s\<lparr>latitude := latitude s - 0.0001, speed := 2.0, heading := 180,
            battery_level := max 0 (battery_level s - 0.2)\<rparr>
     \<and> move_left s = s\<lparr>longitude := longitude s - 0.0001, speed := 2.0, heading := 270,
            battery_level := max 0 (battery_level s - 0.2)\<rparr>
     \<and> move_right s = s\<lparr>longitude := longitude s + 0.0001, speed := 2.0, heading := 90,
            battery_level := max 0 (battery_level s - 0.2)\<rparr>"
proof -
  have "movement_step s = 0.0001"
    using assms(1) by (simp add: run_ops_movement_step init_drone_def)
  then show ?thesis using assms(2) by (simp add: drone_defs)
qed

theorem horizontal_moves_witness:
  "takeoff (default_drone 0) = run_ops [Takeoff] (init_drone 0 0 10 0) \<and> is_flying (takeoff (default_drone 0))
   \<and> latitude (move_forward (takeoff (default_drone 0))) = 0.0001
   \<and> longitude (move_forward (takeoff (default_drone 0))) = 0
   \<and> altitude (move_forward (takeoff (default_drone 0))) = 10
   \<and> battery_level (move_forward (takeoff (default_drone 0))) = 99.8
   \<and> longitude (move_left (takeoff (default_drone 0))) = - 0.0001
   \<and> heading (move_left (takeoff (default_drone 0))) = 270"
  using horizontal_moves [of "takeoff (default_drone 0)" "[Takeoff]" 0 0 10 0]
  by (simp add: default_drone_def init_drone_def takeoff_def)

lemma return_to_home_frame:
  "is_flying (return_to_home s) = is_flying s"
  "initial_lat (return_to_home s) = initial_lat s"
  "initial_lng (return_to_home s) = initial_lng s"
  by (simp_all add: drone_defs)

lemma return_to_home_offsets:
  assumes "is_flying s"
  shows "latitude (return_to_home s) - initial_lat s = 0.8 * (latitude s - initial_lat s)"
    and "longitude (return_to_home s) - initial_lng s = 0.8 * (longitude s - initial_lng s)"
  using assms by (simp_all add: drone_defs algebra_simps)

lemma return_to_home_iter:
  assumes "is_flying s"
  shows "is_flying ((return_to_home ^^ n) s)
       \<and> initial_lat ((return_to_home ^^ n) s) = initial_lat s
       \<and> initial_lng ((return_to_home ^^ n) s) = initial_lng s
       \<and> latitude ((return_to_home ^^ n) s) - initial_lat s = 0.8 ^ n * (latitude s - initial_lat s)
       \<and> longitude ((return_to_home ^^ n) s) - initial_lng s = 0.8 ^ n * (longitude s - initial_lng s)"
proof (induction n)
  case 0
  show ?case using assms by simp
next
  case (Suc n)
  let ?t = "(return_to_home ^^ n) s"
  from Suc have f: "is_flying ?t" by simp
  show ?case
    using Suc return_to_home_offsets [OF f]
    by (simp add: return_to_home_frame)
qed

lemma home_distance_return_to_home:
  assumes "is_flying s"
  shows "home_distance (return_to_home s) = 0.8 * home_distance s"
proof -
  have "home_distance (return_to_home s)
      = sqrt ((0.8 * (latitude s - initial_lat s))\<^sup>2 + (0.8 * (longitude s - initial_lng s))\<^sup>2)"
    unfolding home_distance_def return_to_home_frame
    by (simp only: return_to_home_offsets [OF assms])
  also have "\<dots> = sqrt (0.8\<^sup>2 * ((latitude s - initial_lat s)\<^sup>2 + (longitude s - initial_lng s)\<^sup>2))"
    by (simp only: power_mult_distrib distrib_left)
  also have "\<dots> = 0.8 * home_distance s"
    by (simp only: real_sqrt_mult home_distance_def) simp
  finally show ?thesis .
qed

text \<open>
  Claim C10. In a flying state one call of \<open>return_to_home\<close> sets the latitude to
  \<open>0.8 * latitude + 0.2 * initial_lat\<close> and the longitude to
  \<open>0.8 * longitude + 0.2 * initial_lng\<close>; the distance to home is multiplied by 0.8; and
  over the reals a drone that is not at home is not at home after any number \<open>n\<close> of
  calls.
\<close>

theorem return_to_home_contracts:
  assumes "is_flying s"
  shows "latitude (return_to_home s) = 0.8 * latitude s + 0.2 * initial_lat s
       \<and> longitude (return_to_home s) = 0.8 * longitude s + 0.2 * initial_lng s
       \<and> home_distance (return_to_home s) = 0.8 * home_distance s
       \<and> ((latitude s, longitude s) \<noteq> (initial_lat s, initial_lng s) \<longrightarrow>
            (latitude ((return_to_home ^^ n) s), longitude ((return_to_home ^^ n) s))
              \<noteq> (initial_lat s, initial_lng s))"
proof -
  have one: "latitude (return_to_home s) = 0.8 * latitude s + 0.2 * initial_lat s
       \<and> longitude (return_to_home s) = 0.8 * longitude s + 0.2 * initial_lng s"
    using assms by (simp add: drone_defs)
  have never: "(latitude ((return_to_home ^^ n) s), longitude ((return_to_home ^^ n) s))
              \<noteq> (initial_lat s, initial_lng s)"
    if ne: "(latitude s, longitude s) \<noteq> (initial_lat s, initial_lng s)"
  proof
    assume eq: "(latitude ((return_to_home ^^ n) s), longitude ((return_to_home ^^ n) s))
              = (initial_lat s, initial_lng s)"
    have p: "(0.8::real) ^ n \<noteq> 0" by simp
    from eq return_to_home_iter [OF assms, of n]
    have "0.8 ^ n * (latitude s - initial_lat s) = 0" "0.8 ^ n * (longitude s - initial_lng s) = 0"
      by simp_all
    with p have "latitude s = initial_lat s" "longitude s = initial_lng s" by simp_all
    with ne show False by simp
  qed
  show ?thesis using one home_distance_return_to_home [OF assms] never by blast
qed

theorem return_to_home_contracts_witness:
  "is_flying away_drone
   \<and> latitude (return_to_home away_drone) = 2.4 \<and> longitude (return_to_home away_drone) = 3.2
   \<and> home_distance away_drone = 5 \<and> home_distance (return_to_home away_drone) = 4
   \<and> (latitude away_drone, longitude away_drone) \<noteq> (initial_lat away_drone, initial_lng away_drone)
   \<and> (latitude ((return_to_home ^^ 7) away_drone), longitude ((return_to_home ^^ 7) away_drone))
              \<noteq> (initial_lat away_drone, initial_lng away_drone)"
proof -
  have f: "is_flying away_drone"
    by (simp add: away_drone_def takeoff_def)
  have v: "latitude away_drone = 3" "longitude away_drone = 4" "initial_lat away_drone = 0"
    "initial_lng away_drone = 0"
    by (simp_all add: away_drone_def takeoff_def default_drone_def init_drone_def)
  have d: "home_distance away_drone = 5"
  proof -
    have "home_distance away_drone = sqrt (5\<^sup>2)" by (simp add: home_distance_def v)
    also have "\<dots> = 5" by simp
    finally show ?thesis .
  qed
  show ?thesis using return_to_home_contracts [OF f, of 7] f d by (simp add: v)
qed

text \<open>
  Claim C7. When \<open>is_flying\<close> is false, each of \<open>move_forward\<close>, \<open>move_backward\<close>,
  \<open>move_left\<close>, \<open>move_right\<close>, \<open>move_up\<close>, \<open>move_down\<close> and \<open>return_to_home\<close>
  returns the state it was given, every field unchanged.
\<close>

theorem grounded_moves_are_noops:
  assumes "\<not> is_flying s"
  shows "move_forward s = s \<and> move_backward s = s \<and> move_left s = s \<and> move_right s = s
       \<and> move_up s = s \<and> move_down s = s \<and> return_to_home s = s"
  using assms by (simp add: drone_defs)

theorem grounded_moves_are_noops_witness:
  "\<not> is_flying (default_drone 0) \<and> move_forward (default_drone 0) = default_drone 0
   \<and> move_backward (default_drone 0) = default_drone 0
   \<and> move_left (default_drone 0) = default_drone 0
   \<and> move_right (default_drone 0) = default_drone 0
   \<and> move_up (default_drone 0) = default_drone 0
   \<and> move_down (default_drone 0) = default_drone 0
   \<and> return_to_home (default_drone 0) = default_drone 0"
  using grounded_moves_are_noops [of "default_drone 0"]
  by (simp add: default_drone_def init_drone_def)

section \<open>Properties of double-precision arithmetic\<close>

text \<open>
  Rounding to the nearest integer, ties to even.
\<close>

lemma round_half_even_le: "y \<le> of_int k \<Longrightarrow> round_half_even y \<le> k"
proof -
  assume y: "y \<le> of_int k"
  then have f: "\<lfloor>y\<rfloor> \<le> k" by (simp add: floor_le_iff)
  show ?thesis
  proof (cases "y - of_int \<lfloor>y\<rfloor> < 1 / 2")
    case True
    with f show ?thesis by (simp add: round_half_even_def)
  next
    case False
    then have "of_int \<lfloor>y\<rfloor> < y" by linarith
    with y have "(of_int \<lfloor>y\<rfloor> :: real) < of_int k" by linarith
    then have "\<lfloor>y\<rfloor> < k" by simp
    then show ?thesis by (simp add: round_half_even_def Let_def)
  qed
qed

lemma round_half_even_ge: "of_int k \<le> y \<Longrightarrow> k \<le> round_half_even y"
proof -
  assume "of_int k \<le> y"
  then have "k \<le> \<lfloor>y\<rfloor>" by (simp add: le_floor_iff)
  then show ?thesis by (simp add: round_half_even_def Let_def)
qed

lemma round_half_even_eqI:
  assumes "\<bar>y - of_int k\<bar> < 1 / 2"
  shows "round_half_even y = k"
proof (cases "of_int k \<le> y")
  case True
  with assms have "\<lfloor>y\<rfloor> = k" by (intro floor_unique) linarith+
  with assms True show ?thesis by (simp add: round_half_even_def)
next
  case False
  with assms have "\<lfloor>y\<rfloor> = k - 1" by (intro floor_unique) (simp, linarith)+
  with assms False show ?thesis by (simp add: round_half_even_def Let_def)
qed

lemma round_half_even_minus: "round_half_even (- y) = - round_half_even y"
proof (cases "y = of_int \<lfloor>y\<rfloor>")
  case True
  then obtain k :: int where k: "y = of_int k" ..
  have "round_half_even (of_int k) = k" by (intro round_half_even_eqI) simp
  moreover have "round_half_even (- of_int k) = - k"
    using round_half_even_eqI [of "- of_int k" "- k"] by simp
  ultimately show ?thesis using k by simp
next
  case False
  define f where "f = \<lfloor>y\<rfloor>"
  have lo: "of_int f < y" using False f_def by (metis floor_less_cancel floor_of_int less_eq_real_def not_le of_int_floor_le)
  have hi: "y < of_int f + 1" unfolding f_def by linarith
  have nf: "\<lfloor>- y\<rfloor> = - f - 1" using lo hi by (intro floor_unique) simp_all
  consider "y - of_int f < 1 / 2" | "y - of_int f > 1 / 2" | "y - of_int f = 1 / 2" by linarith
  then show ?thesis
  proof cases
    case 1
    then show ?thesis using nf lo hi unfolding round_half_even_def Let_def f_def [symmetric]
      by simp
  next
    case 2
    then show ?thesis using nf lo hi unfolding round_half_even_def Let_def f_def [symmetric]
      by simp
  next
    case 3
    then have "- y - of_int (- f - 1) = 1 / 2" by simp
    with 3 show ?thesis unfolding round_half_even_def Let_def nf f_def [symmetric]
      by simp
  qed
qed

text \<open>
  The binade of a number.
\<close>

lemma binade_minus: "binade (- x) = binade x"
  by (simp add: binade_def)

lemma fl_0: "fl 0 = 0"
  by (simp add: fl_def)

lemma fl_minus: "fl (- x) = - fl x"
  by (simp add: fl_def binade_minus round_half_even_minus)

lemma binade_ge: "- 1022 \<le> binade x"
  by (simp add: binade_def)

lemma binade_upper:
  assumes "0 < x"
  shows "x < 2 powi (binade x + 1)"
proof -
  have "\<lfloor>log 2 x\<rfloor> \<le> binade x" using assms by (simp add: binade_def)
  have "x < 2 powr (of_int \<lfloor>log 2 x\<rfloor> + 1)"
    using assms floor_log_eq_powr_iff [of x 2 "\<lfloor>log 2 x\<rfloor>"] by simp
  also have "\<dots> = 2 powi (\<lfloor>log 2 x\<rfloor> + 1)"
    using powr_real_of_int' [of 2 "\<lfloor>log 2 x\<rfloor> + 1"] by simp
  also have "\<dots> \<le> 2 powi (binade x + 1)"
    using \<open>\<lfloor>log 2 x\<rfloor> \<le> binade x\<close> by (intro power_int_increasing) simp_all
  finally show ?thesis .
qed

lemma binade_lower:
  assumes "0 < x" and "- 1022 < binade x"
  shows "2 powi binade x \<le> x"
proof -
  from assms have e: "binade x = \<lfloor>log 2 x\<rfloor>" by (simp add: binade_def max_def split: if_splits)
  have "2 powr of_int \<lfloor>log 2 x\<rfloor> \<le> x"
    using assms floor_log_eq_powr_iff [of x 2 "\<lfloor>log 2 x\<rfloor>"] by simp
  also have "(2::real) powr of_int \<lfloor>log 2 x\<rfloor> = 2 powi \<lfloor>log 2 x\<rfloor>"
    using powr_real_of_int' [of 2 "\<lfloor>log 2 x\<rfloor>"] by simp
  finally show ?thesis using e by simp
qed

lemma binade_eqI:
  assumes "2 powi e \<le> \<bar>x\<bar>" and "\<bar>x\<bar> < 2 powi (e + 1)" and "- 1022 \<le> e"
  shows "binade x = e"
proof -
  have pos: "0 < \<bar>x\<bar>" using assms(1) by (smt (verit) zero_less_power_int)
  have "2 powr of_int e \<le> \<bar>x\<bar> \<and> \<bar>x\<bar> < 2 powr (of_int e + 1)"
    using assms powr_real_of_int' [of 2 e] powr_real_of_int' [of 2 "e + 1"] by simp
  then have "\<lfloor>log 2 \<bar>x\<bar>\<rfloor> = e"
    using pos floor_log_eq_powr_iff [of "\<bar>x\<bar>" 2 e] by simp
  with assms(3) show ?thesis by (simp add: binade_def)
qed

text \<open>
  Evaluation of \<open>fl\<close> at a given number: with the exponent \<open>e\<close> of its binade and the
  integer \<open>k\<close> nearest to its quotient by \<open>2^(e - 52)\<close>. The same for a square root.
\<close>

lemma fl_eqI:
  assumes "2 powi e \<le> \<bar>x\<bar>" and "\<bar>x\<bar> < 2 powi (e + 1)" and "- 1022 \<le> e"
    and "\<bar>x / 2 powi (e - 52) - of_int k\<bar> < 1 / 2"
  shows "fl x = of_int k * 2 powi (e - 52)"
proof -
  have b: "binade x = e" using assms(1-3) by (rule binade_eqI)
  have "x \<noteq> 0" using assms(1) by (smt (verit) zero_less_power_int)
  then show ?thesis
    using round_half_even_eqI [OF assms(4)] by (simp add: fl_def b)
qed

lemma fl_sqrt_eqI:
  assumes "(2 powi e)\<^sup>2 \<le> S" and "S < (2 powi (e + 1))\<^sup>2" and "- 1022 \<le> e" and "1 \<le> k"
    and "((of_int k - 1 / 2) * 2 powi (e - 52))\<^sup>2 < S"
    and "S < ((of_int k + 1 / 2) * 2 powi (e - 52))\<^sup>2"
  shows "fl (sqrt S) = of_int k * 2 powi (e - 52)"
proof -
  define q :: real where "q = 2 powi (e - 52)"
  have q: "0 < q" by (simp add: q_def)
  have lo: "2 powi e \<le> sqrt S" using assms(1) by (rule real_le_rsqrt)
  have hi: "sqrt S < 2 powi (e + 1)" using assms(2) by (intro real_less_lsqrt) simp_all
  have "(of_int k - 1 / 2) * q < sqrt S"
    using assms(5) unfolding q_def by (rule real_less_rsqrt)
  moreover have "sqrt S < (of_int k + 1 / 2) * q"
    using assms(4,6) q unfolding q_def by (intro real_less_lsqrt) simp_all
  ultimately have "of_int k - 1 / 2 < sqrt S / q" and "sqrt S / q < of_int k + 1 / 2"
    using q by (simp_all add: pos_less_divide_eq pos_divide_less_eq)
  then have "\<bar>sqrt S / q - of_int k\<bar> < 1 / 2" by linarith
  moreover have "0 \<le> sqrt S" using lo by (smt (verit) zero_less_power_int)
  ultimately show ?thesis
    using lo hi assms(3) unfolding q_def by (intro fl_eqI) simp_all
qed

text \<open>
  Rounding never crosses a double: a double above a positive number is above its rounding,
  and one below is below. Hence doubles are rounded to themselves.
\<close>

lemma powi2_less_cancel:
  assumes "(2::real) powi a < 2 powi b"
  shows "a < b"
proof (rule ccontr)
  assume "\<not> a < b"
  then have "(2::real) powi b \<le> 2 powi a" by (intro power_int_increasing) simp_all
  with assms show False by simp
qed

lemma double_multiple:
  assumes d: "is_double d" and pos: "0 < d" and ge: "e = - 1022 \<or> 2 powi e \<le> d"
    and e: "- 1022 \<le> e"
  shows "\<exists>k::int. d = of_int k * 2 powi (e - 52)"
proof -
  from d obtain m e' where m: "d = of_int m * 2 powi e'" "\<bar>m\<bar> < 2 ^ 53" "- 1074 \<le> e'"
    unfolding is_double_def by blast
  have mpos: "0 < m"
  proof (rule ccontr)
    assume "\<not> 0 < m"
    then have "of_int m * (2::real) powi e' \<le> 0"
      by (intro mult_nonpos_nonneg) simp_all
    with pos m(1) show False by simp
  qed
  have ee: "e - 52 \<le> e'"
  proof (cases "e = - 1022")
    case True
    with m(3) show ?thesis by simp
  next
    case False
    with ge have "2 powi e \<le> d" by simp
    also have "d < 2 ^ 53 * 2 powi e'"
      unfolding m(1) using m(2) mpos
      by (intro mult_strict_right_mono) (simp_all add: of_int_less_numeral_power_cancel_iff)
    also have "\<dots> = (2::real) powi (53 + e')"
      by (simp add: power_int_add)
    finally have "e < 53 + e'"
      by (rule powi2_less_cancel)
    then show ?thesis by simp
  qed
  define n where "n = nat (e' - (e - 52))"
  have "(2::real) powi e' = 2 powi ((e - 52) + int n)"
    using ee by (simp add: n_def)
  also have "\<dots> = 2 powi (e - 52) * 2 ^ n"
    by (simp add: power_int_add)
  finally have "d = of_int (m * 2 ^ n) * 2 powi (e - 52)"
    unfolding m(1) by simp
  then show ?thesis by blast
qed

lemma fl_pos_eq:
  assumes "0 < x"
  shows "fl x = of_int (round_half_even (x / 2 powi (binade x - 52))) * 2 powi (binade x - 52)"
  using assms by (simp add: fl_def)

lemma fl_le:
  assumes x: "0 < x" and le: "x \<le> b" and b: "is_double b"
  shows "fl x \<le> b"
proof -
  define e where "e = binade x"
  define q :: real where "q = 2 powi (e - 52)"
  have q: "0 < q" by (simp add: q_def)
  have bpos: "0 < b" using x le by simp
  have "e = - 1022 \<or> 2 powi e \<le> b"
  proof (cases "e = - 1022")
    case False
    then have "- 1022 < binade x" using binade_ge [of x] by (simp add: e_def)
    then have "2 powi e \<le> x" unfolding e_def using x by (intro binade_lower)
    with le show ?thesis by simp
  qed simp
  then obtain k :: int where k: "b = of_int k * q"
    using double_multiple [OF b bpos, of e] binade_ge [of x] unfolding q_def e_def by blast
  have "x / q \<le> of_int k" using le q k by (simp add: field_simps)
  then have "round_half_even (x / q) \<le> k" by (rule round_half_even_le)
  then have "of_int (round_half_even (x / q)) * q \<le> of_int k * q"
    using q by (intro mult_right_mono) simp_all
  then show ?thesis unfolding fl_pos_eq [OF x] k q_def e_def .
qed

lemma fl_ge:
  assumes a: "0 < a" and le: "a \<le> x" and d: "is_double a"
  shows "a \<le> fl x"
proof -
  have x: "0 < x" using a le by simp
  define e where "e = binade x"
  define q :: real where "q = 2 powi (e - 52)"
  have q: "0 < q" by (simp add: q_def)
  have e: "- 1022 \<le> e" unfolding e_def by (rule binade_ge)
  show ?thesis
  proof (cases "e = - 1022 \<or> 2 powi e \<le> a")
    case True
    then obtain k :: int where k: "a = of_int k * q"
      using double_multiple [OF d a, of e] e unfolding q_def by blast
    have "of_int k \<le> x / q" using le q k by (simp add: field_simps)
    then have "k \<le> round_half_even (x / q)" by (rule round_half_even_ge)
    then have "of_int k * q \<le> of_int (round_half_even (x / q)) * q"
      using q by (intro mult_right_mono) simp_all
    then show ?thesis unfolding fl_pos_eq [OF x] k q_def e_def .
  next
    case False
    then have ne: "e \<noteq> - 1022" and lt: "a < 2 powi e" by simp_all
    from ne e have "- 1022 < binade x" by (simp add: e_def)
    then have "2 powi e \<le> x" unfolding e_def using x by (intro binade_lower)
    moreover have "(2::real) powi e = of_int (2 ^ 52) * q"
      unfolding q_def by (simp add: power_int_diff)
    ultimately have "of_int (2 ^ 52) \<le> x / q" using q by (simp add: field_simps)
    then have "2 ^ 52 \<le> round_half_even (x / q)" by (rule round_half_even_ge)
    then have "of_int (2 ^ 52) * q \<le> of_int (round_half_even (x / q)) * q"
      using q by (intro mult_right_mono) simp_all
    then have "2 powi e \<le> fl x"
      using \<open>(2::real) powi e = of_int (2 ^ 52) * q\<close>
      unfolding fl_pos_eq [OF x] q_def e_def by simp
    with lt show ?thesis by simp
  qed
qed

lemma fl_double:
  assumes "is_double d" and "0 \<le> d"
  shows "fl d = d"
proof (cases "d = 0")
  case True
  then show ?thesis by (simp add: fl_0)
next
  case False
  with assms(2) have "0 < d" by simp
  then have "fl d \<le> d" "d \<le> fl d"
    using assms(1) by (auto intro: fl_le fl_ge)
  then show ?thesis by simp
qed

lemma fl_nonneg:
  assumes "0 \<le> x"
  shows "0 \<le> fl x"
proof (cases "x = 0")
  case True
  then show ?thesis by (simp add: fl_0)
next
  case False
  with assms have x: "0 < x" by simp
  have "0 \<le> x / 2 powi (binade x - 52)" using x by simp
  then have "0 \<le> round_half_even (x / 2 powi (binade x - 52))"
    using round_half_even_ge [of 0] by simp
  then show ?thesis unfolding fl_pos_eq [OF x] by simp
qed

lemma is_double_int:
  assumes "\<bar>m\<bar> < 2 ^ 53"
  shows "is_double (of_int m)"
  unfolding is_double_def using assms by (intro exI [of _ m] exI [of _ 0]) simp

lemma is_double_dyadic:
  assumes "\<bar>m\<bar> < 2 ^ 53" and "n \<le> 1074"
  shows "is_double (of_int m / 2 ^ n)"
  unfolding is_double_def using assms
  by (intro exI [of _ m] exI [of _ "- int n"]) (simp add: power_int_minus field_simps)

lemma fl_ge_32: "32 \<le> x \<Longrightarrow> 32 \<le> fl x"
  using fl_ge [of 32 x] is_double_int [of 32] by simp

lemma fl_le_1: "0 < x \<Longrightarrow> x \<le> 1 \<Longrightarrow> fl x \<le> 1"
  using fl_le [of x 1] is_double_int [of 1] by simp

text \<open>
  The doubles that the literals of the examples denote.
\<close>

lemma fl_34_0522: "fl 34.0522 = 1198105275243325 / 2 ^ 45"
  using fl_eqI [of 5 "34.0522" 4792421100973300] by simp

lemma fl_34_0530: "fl 34.0530 = 299533355685249 / 2 ^ 43"
  using fl_eqI [of 5 "34.0530" 4792533690963984] by simp

lemma fl_118_2437: "fl 118.2437 = 8320660675920449 / 2 ^ 46"
  using fl_eqI [of 6 "118.2437" 8320660675920449] by simp

lemma fl_118_2450: "fl 118.2450 = 1040094019410985 / 2 ^ 43"
  using fl_eqI [of 6 "118.2450" 8320752155287880] by simp

lemma fl_0_001: "fl 0.001 = 1152921504606847 / 2 ^ 60"
  using fl_eqI [of "- 10" "0.001" 4611686018427388] by simp

lemma fl_0_0008: "fl 0.0008 = 7378697629483821 / 2 ^ 63"
  using fl_eqI [of "- 11" "0.0008" 7378697629483821] by simp

lemma fl_0_6: "fl 0.6 = 5404319552844595 / 2 ^ 53"
  using fl_eqI [of "- 1" "0.6" 5404319552844595] by simp

lemma fl_0_7: "fl 0.7 = 3152519739159347 / 2 ^ 52"
  using fl_eqI [of "- 1" "0.7" 6305039478318694] by simp

lemma confidence_60: "fl (fl 0.6 * 100) = 60"
  unfolding fl_0_6
  using fl_eqI [of 5 "5404319552844595 / 2 ^ 53 * 100" 8444249301319680] by simp

lemma confidence_70: "fl (fl 0.7 * 100) = 70"
  unfolding fl_0_7
  using fl_eqI [of 6 "3152519739159347 / 2 ^ 52 * 100" 4925812092436480] by simp

section \<open>Properties of the detection simulator\<close>

subsection \<open>The scan over the hotspots\<close>

lemma scan_hotspots_labelled:
  "scan_hotspots pow2 label hs qlat qlon g = scan_labelled pow2 (map (Pair label) hs) qlat qlon g"
  by (induction hs arbitrary: g) (simp_all add: random_random_def fmul_def)

lemma scan_labelled_append:
  "scan_labelled pow2 (xs @ ys) qlat qlon g =
     (case scan_labelled pow2 xs qlat qlon g of
        (Some r, g') \<Rightarrow> (Some r, g')
      | (None, g') \<Rightarrow> scan_labelled pow2 ys qlat qlon g')"
  by (induction pow2 xs qlat qlon g rule: scan_labelled.induct) simp_all

lemma scan_labelled_filter:
  "scan_labelled pow2 xs qlat qlon g =
     scan_labelled pow2
       (filter (\<lambda>(label, h). distance pow2 qlat qlon (lat h) (lon h) < radius h) xs) qlat qlon g"
  by (induction pow2 xs qlat qlon g rule: scan_labelled.induct) simp_all

lemma random_choices_shift:
  "snd (random_choices population weights g) = (\<lambda>n. g (Suc n))"
  by (simp add: random_choices_def random_random_def Let_def)

lemma bisect_le: "bisect a x hi \<le> hi"
proof -
  have "bisect a x hi \<le> length (take hi a)"
    unfolding bisect_def by (rule length_takeWhile_le)
  then show ?thesis by simp
qed

lemma random_choices_mem:
  assumes "population \<noteq> []"
  shows "fst (random_choices population weights g) \<in> set population"
proof -
  have "bisect (accumulate weights) (fmul (g 0) (fadd (last (accumulate weights)) 0)) (length population - 1)
          < length population"
    using bisect_le [of _ _ "length population - 1"] assms
    by (metis diff_less le_imp_less_Suc length_greater_0_conv less_Suc_eq_le less_imp_diff_less
        less_one not_less order.strict_trans1 Suc_pred)
  then show ?thesis
    by (simp add: random_choices_def random_random_def Let_def)
qed

lemma random_detection_eq:
  "(case random_random g of (r, g4) \<Rightarrow>
        if r < fl 0.05
        then (case random_choices [''Landmine'', ''Metal Debris'', ''Safe Zone'']
                     [fl 0.2, fl 0.5, fl 0.3] g4
                of (detection_type, g5) \<Rightarrow>
              case uniform 70 95 g5 of (confidence, g6) \<Rightarrow>
                ((Some detection_type, confidence), g6))
        else ((None, 0), g4))
   = (fallback g,
      if g 0 < fl 0.05 then (\<lambda>n. g (Suc (Suc (Suc n)))) else (\<lambda>n. g (Suc n)))"
proof -
  obtain t g5 where c: "random_choices [''Landmine'', ''Metal Debris'', ''Safe Zone'']
                     [fl 0.2, fl 0.5, fl 0.3] (\<lambda>n. g (Suc n)) = (t, g5)"
    by (cases "random_choices [''Landmine'', ''Metal Debris'', ''Safe Zone'']
                     [fl 0.2, fl 0.5, fl 0.3] (\<lambda>n. g (Suc n))")
  have g5: "g5 = (\<lambda>n. g (Suc (Suc n)))"
    using random_choices_shift [of "[''Landmine'', ''Metal Debris'', ''Safe Zone'']"
        "[fl 0.2, fl 0.5, fl 0.3]" "\<lambda>n. g (Suc n)"] c by simp
  show ?thesis
    unfolding random_random_def fallback_def prod.case c
    by (simp add: g5 uniform_def random_random_def fadd_def fmul_def numeral_2_eq_2)
qed

lemma is_near_hotspot_scan:
  "fst (is_near_hotspot pow2 qlat qlon g) =
     (case scan_labelled pow2 (near_hotspots pow2 qlat qlon) qlat qlon g of
        (Some (t, c), g') \<Rightarrow> (Some t, c)
      | (None, g') \<Rightarrow> fallback g')"
proof -
  have "scan_labelled pow2 (near_hotspots pow2 qlat qlon) qlat qlon g
          = scan_labelled pow2 scan_order qlat qlon g"
    unfolding near_hotspots_def by (rule scan_labelled_filter [symmetric])
  then show ?thesis
    unfolding is_near_hotspot_def random_detection_eq
    by (simp add: scan_order_def scan_hotspots_labelled scan_labelled_append
        split: prod.splits option.splits)
qed

lemma scan_labelled_hit:
  assumes "\<forall>(label, h) \<in> set ns. distance pow2 qlat qlon (lat h) (lon h) < radius h"
    and "k < length ns" and "\<forall>j<k. \<not> g j < probability (snd (ns ! j))"
    and "g k < probability (snd (ns ! k))"
  shows "scan_labelled pow2 ns qlat qlon g =
           (Some (fst (ns ! k), fl (probability (snd (ns ! k)) * 100)), \<lambda>n. g (Suc k + n))"
  using assms
proof (induction ns arbitrary: g k)
  case Nil
  then show ?case by simp
next
  case (Cons x ns)
  obtain label h where x: "x = (label, h)" by (cases x)
  from Cons.prems(1) x have near: "distance pow2 qlat qlon (lat h) (lon h) < radius h" by simp
  show ?case
  proof (cases k)
    case 0
    with Cons.prems x near show ?thesis by simp
  next
    case (Suc k')
    let ?g = "\<lambda>n. g (Suc n)"
    from Cons.prems(3) Suc have miss: "\<not> g 0 < probability h" using x by auto
    have "scan_labelled pow2 ns qlat qlon ?g =
           (Some (fst (ns ! k'), fl (probability (snd (ns ! k')) * 100)), \<lambda>n. ?g (Suc k' + n))"
    proof (rule Cons.IH)
      show "\<forall>(label, h) \<in> set ns. distance pow2 qlat qlon (lat h) (lon h) < radius h"
        using Cons.prems(1) by simp
      show "k' < length ns" using Cons.prems(2) Suc by simp
      show "\<forall>j<k'. \<not> g (Suc j) < probability (snd (ns ! j))"
        using Cons.prems(3) Suc by auto
      show "g (Suc k') < probability (snd (ns ! k'))"
        using Cons.prems(4) Suc by simp
    qed
    with x near miss Suc show ?thesis by simp
  qed
qed

lemma scan_labelled_miss:
  assumes "\<forall>(label, h) \<in> set ns. distance pow2 qlat qlon (lat h) (lon h) < radius h"
    and "\<forall>j<length ns. \<not> g j < probability (snd (ns ! j))"
  shows "scan_labelled pow2 ns qlat qlon g = (None, \<lambda>n. g (length ns + n))"
  using assms
proof (induction ns arbitrary: g)
  case Nil
  then show ?case by simp
next
  case (Cons x ns)
  obtain label h where x: "x = (label, h)" by (cases x)
  from Cons.prems(1) x have near: "distance pow2 qlat qlon (lat h) (lon h) < radius h" by simp
  let ?g = "\<lambda>n. g (Suc n)"
  from Cons.prems(2) have miss: "\<not> g 0 < probability h" using x by auto
  have "scan_labelled pow2 ns qlat qlon ?g = (None, \<lambda>n. ?g (length ns + n))"
  proof (rule Cons.IH)
    show "\<forall>(label, h) \<in> set ns. distance pow2 qlat qlon (lat h) (lon h) < radius h"
      using Cons.prems(1) by simp
    show "\<forall>j<length ns. \<not> g (Suc j) < probability (snd (ns ! j))"
      using Cons.prems(2) by auto
  qed
  with x near miss show ?case by simp
qed

lemma near_hotspots_in_range:
  "\<forall>(label, h) \<in> set (near_hotspots pow2 qlat qlon).
      distance pow2 qlat qlon (lat h) (lon h) < radius h"
  by (auto simp: near_hotspots_def)

lemma first_hit_exists:
  fixes P :: "nat \<Rightarrow> bool"
  assumes "\<exists>k<n. P k"
  shows "\<exists>k<n. P k \<and> (\<forall>j<k. \<not> P j)"
proof -
  from assms obtain k where k: "k < n \<and> P k" by blast
  define m where "m = (LEAST k. k < n \<and> P k)"
  have "m < n \<and> P m" unfolding m_def using k by (rule LeastI)
  moreover have "\<forall>j<m. \<not> P j"
  proof (intro allI impI notI)
    fix j assume "j < m" "P j"
    with \<open>m < n \<and> P m\<close> have "j < n \<and> P j" by simp
    then have "m \<le> j" unfolding m_def by (rule Least_le)
    with \<open>j < m\<close> show False by simp
  qed
  ultimately show ?thesis by blast
qed

lemma uniform_70_95_range:
  assumes "0 \<le> u" and "u < 1"
  shows "70 \<le> fl (70 + fl (25 * u)) \<and> fl (70 + fl (25 * u)) \<le> 95"
proof -
  have d: "is_double 25" "is_double 70" "is_double 95"
    using is_double_int [of 25] is_double_int [of 70] is_double_int [of 95] by simp_all
  have lo: "0 \<le> fl (25 * u)" using assms(1) by (intro fl_nonneg) simp
  have hi: "fl (25 * u) \<le> 25"
  proof (cases "u = 0")
    case True
    then show ?thesis by (simp add: fl_0)
  next
    case False
    with assms show ?thesis by (intro fl_le d) simp_all
  qed
  have "70 \<le> fl (70 + fl (25 * u))" using lo by (intro fl_ge d) simp_all
  moreover have "fl (70 + fl (25 * u)) \<le> 95" using lo hi by (intro fl_le d) simp_all
  ultimately show ?thesis ..
qed

lemma fallback_range:
  assumes "rng_ok g" and "fst (fallback g) \<noteq> None"
  shows "70 \<le> snd (fallback g) \<and> snd (fallback g) \<le> 95"
proof -
  from assms(1) have "0 \<le> g 2" "g 2 < 1" unfolding rng_ok_def by simp_all
  then have "70 \<le> fl (70 + fl (25 * g 2)) \<and> fl (70 + fl (25 * g 2)) \<le> 95"
    by (rule uniform_70_95_range)
  with assms(2) show ?thesis by (auto simp: fallback_def split: if_splits)
qed

text \<open>
  Claim C1. Let \<open>ns\<close> be the hotspots within range of the query point (the distance
  \<open>sqrt((lat - hlat)^2 + (lon - hlon)^2)\<close>, computed in double arithmetic, strictly below
  the radius), in the order landmine, debris, safe; the \<open>k\<close>-th of them is tested against
  the \<open>k\<close>-th random draw. The first hotspot whose draw is below its probability gives the
  result: its classification, with confidence its probability times 100. When no draw is
  below its hotspot's probability, the result is the fallback on the following draws: a
  random detection when the next draw is below 0.05, with confidence \<open>70 + 25 * u\<close> in
  \<open>[70, 95]\<close>, and \<open>(None, 0)\<close> otherwise. A classification is returned in no other case.
  This holds whatever the C library's \<open>pow\<close> returns.
\<close>

theorem is_near_hotspot_scan_order:
  "let ns = near_hotspots pow2 qlat qlon;
       r = fst (is_near_hotspot pow2 qlat qlon g);
       hit = (\<lambda>k. g k < probability (snd (ns ! k)))
   in (\<forall>(label, h) \<in> set ns.
          fl (sqrt (fl (pow2 (fl (qlat - lat h)) + pow2 (fl (qlon - lon h))))) < radius h)
    \<and> (\<forall>k<length ns. (\<forall>j<k. \<not> hit j) \<and> hit k \<longrightarrow>
          r = (Some (fst (ns ! k)), fl (probability (snd (ns ! k)) * 100)))
    \<and> ((\<forall>j<length ns. \<not> hit j) \<longrightarrow> r = fallback (\<lambda>n. g (length ns + n)))
    \<and> (fst r \<noteq> None \<longrightarrow>
          (\<exists>k<length ns. hit k
              \<and> r = (Some (fst (ns ! k)), fl (probability (snd (ns ! k)) * 100)))
        \<or> ((\<forall>j<length ns. \<not> hit j) \<and> g (length ns) < fl 0.05
            \<and> (rng_ok g \<longrightarrow> 70 \<le> snd r \<and> snd r \<le> 95)))"
proof -
  define ns where "ns = near_hotspots pow2 qlat qlon"
  define r where "r = fst (is_near_hotspot pow2 qlat qlon g)"
  define hit where "hit = (\<lambda>k. g k < probability (snd (ns ! k)))"
  have near: "\<forall>(label, h) \<in> set ns. distance pow2 qlat qlon (lat h) (lon h) < radius h"
    unfolding ns_def by (rule near_hotspots_in_range)
  have r: "r = (case scan_labelled pow2 ns qlat qlon g of
                  (Some (t, c), g') \<Rightarrow> (Some t, c) | (None, g') \<Rightarrow> fallback g')"
    unfolding r_def ns_def by (rule is_near_hotspot_scan)
  have first: "r = (Some (fst (ns ! k)), fl (probability (snd (ns ! k)) * 100))"
    if "k < length ns" "\<forall>j<k. \<not> hit j" "hit k" for k
  proof -
    have "scan_labelled pow2 ns qlat qlon g =
           (Some (fst (ns ! k), fl (probability (snd (ns ! k)) * 100)), \<lambda>n. g (Suc k + n))"
      using near that unfolding hit_def by (intro scan_labelled_hit) simp_all
    then show ?thesis by (simp add: r)
  qed
  have none: "r = fallback (\<lambda>n. g (length ns + n))" if "\<forall>j<length ns. \<not> hit j"
  proof -
    have "scan_labelled pow2 ns qlat qlon g = (None, \<lambda>n. g (length ns + n))"
      using near that unfolding hit_def by (intro scan_labelled_miss) simp_all
    then show ?thesis by (simp add: r)
  qed
  have only: "(\<exists>k<length ns. hit k
              \<and> r = (Some (fst (ns ! k)), fl (probability (snd (ns ! k)) * 100)))
        \<or> ((\<forall>j<length ns. \<not> hit j) \<and> g (length ns) < fl 0.05
            \<and> (rng_ok g \<longrightarrow> 70 \<le> snd r \<and> snd r \<le> 95))"
    if some: "fst r \<noteq> None"
  proof (cases "\<exists>k<length ns. hit k")
    case True
    then obtain k where "k < length ns" "hit k" "\<forall>j<k. \<not> hit j"
      using first_hit_exists [of "length ns" hit] by blast
    then show ?thesis using first by blast
  next
    case False
    then have miss: "\<forall>j<length ns. \<not> hit j" by blast
    let ?g = "\<lambda>n. g (length ns + n)"
    have rf: "r = fallback ?g" using miss by (rule none)
    with some have "g (length ns) < fl 0.05" by (auto simp: fallback_def split: if_splits)
    moreover have "70 \<le> snd r \<and> snd r \<le> 95" if "rng_ok g"
    proof -
      from that have "rng_ok ?g" by (simp add: rng_ok_def)
      then show ?thesis using some unfolding rf by (intro fallback_range) simp_all
    qed
    ultimately show ?thesis using miss by blast
  qed
  have within: "\<forall>(label, h) \<in> set ns.
          fl (sqrt (fl (pow2 (fl (qlat - lat h)) + pow2 (fl (qlon - lon h))))) < radius h"
    using near by (simp add: distance_def fsqrt_def fadd_def fsub_def)
  have b: "\<forall>k<length ns. (\<forall>j<k. \<not> hit j) \<and> hit k \<longrightarrow>
          r = (Some (fst (ns ! k)), fl (probability (snd (ns ! k)) * 100))"
    using first by blast
  have c: "(\<forall>j<length ns. \<not> hit j) \<longrightarrow> r = fallback (\<lambda>n. g (length ns + n))"
    using none by blast
  have d: "fst r \<noteq> None \<longrightarrow>
          (\<exists>k<length ns. hit k
              \<and> r = (Some (fst (ns ! k)), fl (probability (snd (ns ! k)) * 100)))
        \<or> ((\<forall>j<length ns. \<not> hit j) \<and> g (length ns) < fl 0.05
            \<and> (rng_ok g \<longrightarrow> 70 \<le> snd r \<and> snd r \<le> 95))"
    using only by blast
  from within b c d show ?thesis
    unfolding Let_def ns_def r_def hit_def by (intro conjI)
qed

subsection \<open>The simulator at three positions\<close>

text \<open>
  With the correctly rounded square: at the centre of the first landmine hotspot the
  distance to it is 0.
\<close>

lemma distance_same: "distance rounded_square a b a b = 0"
  by (simp add: distance_def fsub_def fadd_def fsqrt_def rounded_square_def fl_0)

text \<open>
  At the position \<open>(34.0522, -118.2450)\<close>, thirteen steps west of the first hotspot, the
  second landmine hotspot (centre \<open>(34.0530, -118.2450)\<close>, radius 0.0008) is at distance
  0.0007999999999981355 in double arithmetic, within its radius; the first (radius 0.001)
  is at distance 0.001300000000000523.
\<close>

lemma grid_distance_second:
  "distance rounded_square (fl 34.0522) (- fl 118.2450) (fl 34.0530) (- fl 118.2450)
     = 28147497671 / 2 ^ 45"
proof -
  have dlat: "fsub (fl 34.0522) (fl 34.0530) = - (28147497671 / 2 ^ 45)"
    unfolding fsub_def fl_34_0522 fl_34_0530
    using fl_eqI [of "- 11" "1198105275243325 / 2 ^ 45 - 299533355685249 / 2 ^ 43"
        "- 7378697629466624"] by simp
  have dlon: "fsub (- fl 118.2450) (- fl 118.2450) = 0"
    by (simp add: fsub_def fl_0)
  have sq: "rounded_square (- (28147497671 / 2 ^ 45)) = 6044629098044971 / 2 ^ 73"
    unfolding rounded_square_def
    using fl_eqI [of "- 21" "- (28147497671 / 2 ^ 45) * - (28147497671 / 2 ^ 45)"
        6044629098044971] by simp
  have sq0: "rounded_square 0 = 0" by (simp add: rounded_square_def fl_0)
  have sum: "fadd (6044629098044971 / 2 ^ 73) 0 = 6044629098044971 / 2 ^ 73"
    unfolding fadd_def
    using fl_eqI [of "- 21" "6044629098044971 / 2 ^ 73 + 0" 6044629098044971] by simp
  have root: "fsqrt (6044629098044971 / 2 ^ 73) = 28147497671 / 2 ^ 45"
    unfolding fsqrt_def
    using fl_sqrt_eqI [of "- 11" "6044629098044971 / 2 ^ 73" 7378697629466624] by (simp add: power2_eq_square)
  show ?thesis unfolding distance_def dlat dlon sq sq0 sum root ..
qed

lemma grid_distance_first:
  "distance rounded_square (fl 34.0522) (- fl 118.2450) (fl 34.0522) (- fl 118.2437)
     = 91479367431 / 2 ^ 46"
proof -
  have dlat: "fsub (fl 34.0522) (fl 34.0522) = 0"
    by (simp add: fsub_def fl_0)
  have dlon: "fsub (- fl 118.2450) (- fl 118.2437) = - (91479367431 / 2 ^ 46)"
    unfolding fsub_def fl_118_2450 fl_118_2437
    using fl_eqI [of "- 10" "- (1040094019410985 / 2 ^ 43) - - (8320660675920449 / 2 ^ 46)"
        "- 5995191823958016"] by simp
  have sq: "rounded_square (- (91479367431 / 2 ^ 46)) = 7980799356056121 / 2 ^ 72"
    unfolding rounded_square_def
    using fl_eqI [of "- 20" "- (91479367431 / 2 ^ 46) * - (91479367431 / 2 ^ 46)"
        7980799356056121] by simp
  have sq0: "rounded_square 0 = 0" by (simp add: rounded_square_def fl_0)
  have sum: "fadd 0 (7980799356056121 / 2 ^ 72) = 7980799356056121 / 2 ^ 72"
    unfolding fadd_def
    using fl_eqI [of "- 20" "0 + 7980799356056121 / 2 ^ 72" 7980799356056121] by simp
  have root: "fsqrt (7980799356056121 / 2 ^ 72) = 91479367431 / 2 ^ 46"
    unfolding fsqrt_def
    using fl_sqrt_eqI [of "- 10" "7980799356056121 / 2 ^ 72" 5995191823958016] by (simp add: power2_eq_square)
  show ?thesis unfolding distance_def dlat dlon sq sq0 sum root ..
qed

text \<open>
  At the origin every hotspot is out of range.
\<close>

lemma origin_out_of_range:
  assumes "32 \<le> hlat" and "rad \<le> 1"
  shows "\<not> distance rounded_square 0 0 hlat hlon < rad"
proof -
  define v where "v = fl hlat"
  have v: "32 \<le> v" unfolding v_def using assms(1) by (rule fl_ge_32)
  have "fsub 0 hlat = - v" by (simp add: fsub_def fl_minus v_def)
  then have "rounded_square (fsub 0 hlat) = fl (v * v)" by (simp add: rounded_square_def)
  moreover have "1024 \<le> v * v" using v mult_mono [of 32 v 32 v] by simp
  then have "1024 \<le> fl (v * v)"
    using fl_ge [of 1024 "v * v"] is_double_int [of 1024] by simp
  ultimately have a: "1024 \<le> rounded_square (fsub 0 hlat)" by simp
  have b: "0 \<le> rounded_square (fsub 0 hlon)"
    unfolding rounded_square_def by (intro fl_nonneg) simp
  define S where "S = fadd (rounded_square (fsub 0 hlat)) (rounded_square (fsub 0 hlon))"
  have "1024 \<le> S"
    unfolding S_def fadd_def using a b fl_ge [of 1024] is_double_int [of 1024] by simp
  then have "32\<^sup>2 \<le> S" by simp
  then have "32 \<le> sqrt S" by (rule real_le_rsqrt)
  then have "32 \<le> fsqrt S" unfolding fsqrt_def by (rule fl_ge_32)
  then show ?thesis using assms(2) unfolding distance_def S_def by simp
qed

lemma near_hotspots_origin: "near_hotspots rounded_square 0 0 = []"
  unfolding near_hotspots_def scan_order_def landmine_hotspots_def debris_hotspots_def
    safe_hotspots_def
  by (simp add: origin_out_of_range fl_ge_32 fl_le_1)

lemma near_hotspots_centre:
  "\<exists>rest. near_hotspots rounded_square (fl 34.0522) (- fl 118.2437) =
     (''Landmine'', \<lparr>lat = fl 34.0522, lon = - fl 118.2437, radius = fl 0.001,
                     probability = fl 0.7\<rparr>) # rest"
proof -
  have "0 < fl 0.001" unfolding fl_0_001 by simp
  then show ?thesis
    unfolding near_hotspots_def scan_order_def landmine_hotspots_def
    by (simp add: distance_same)
qed

lemma near_hotspots_grid:
  "\<exists>rest. near_hotspots rounded_square (fl 34.0522) (- fl 118.2450) =
     (''Landmine'', \<lparr>lat = fl 34.0530, lon = - fl 118.2450, radius = fl 0.0008,
                     probability = fl 0.6\<rparr>) # rest"
proof -
  have a: "\<not> distance rounded_square (fl 34.0522) (- fl 118.2450) (fl 34.0522) (- fl 118.2437)
             < fl 0.001"
    unfolding grid_distance_first fl_0_001 by simp
  have b: "distance rounded_square (fl 34.0522) (- fl 118.2450) (fl 34.0530) (- fl 118.2450)
             < fl 0.0008"
    unfolding grid_distance_second fl_0_0008 by simp
  show ?thesis
    unfolding near_hotspots_def scan_order_def landmine_hotspots_def
    using a b by simp
qed

theorem is_near_hotspot_scan_order_witness:
  "fst (is_near_hotspot rounded_square (fl 34.0522) (- fl 118.2437) half_rng)
     = (Some ''Landmine'', 70)
   \<and> distance rounded_square (fl 34.0522) (- fl 118.2450) (fl 34.0530) (- fl 118.2450)
       < fl 0.0008
   \<and> fst (is_near_hotspot rounded_square (fl 34.0522) (- fl 118.2450) half_rng)
       = (Some ''Landmine'', 60)
   \<and> near_hotspots rounded_square 0 0 = []
   \<and> fst (is_near_hotspot rounded_square 0 0 half_rng) = (None, 0)
   \<and> rng_ok low_rng
   \<and> fst (fst (is_near_hotspot rounded_square 0 0 low_rng)) \<noteq> None
   \<and> snd (fst (is_near_hotspot rounded_square 0 0 low_rng)) = 70 + 25 / 128"
proof -
  note centre = is_near_hotspot_scan_order
      [of rounded_square "fl 34.0522" "- fl 118.2437" half_rng, unfolded Let_def]
  note grid = is_near_hotspot_scan_order
      [of rounded_square "fl 34.0522" "- fl 118.2450" half_rng, unfolded Let_def]
  note origin_half = is_near_hotspot_scan_order [of rounded_square 0 0 half_rng, unfolded Let_def]
  note origin_low = is_near_hotspot_scan_order [of rounded_square 0 0 low_rng, unfolded Let_def]
  have p7: "half_rng 0 < fl 0.7" unfolding fl_0_7 by (simp add: half_rng_def)
  have p6: "half_rng 0 < fl 0.6" unfolding fl_0_6 by (simp add: half_rng_def)
  have p5: "\<not> half_rng 0 < fl 0.05" "low_rng 0 < fl 0.05"
    using fl_le [of "0.05" "1 / 2 ^ 4"] fl_ge [of "1 / 2 ^ 5" "0.05"]
      is_double_dyadic [of 1 4] is_double_dyadic [of 1 5]
    by (simp_all add: half_rng_def low_rng_def)
  obtain rest where c: "near_hotspots rounded_square (fl 34.0522) (- fl 118.2437) =
     (''Landmine'', \<lparr>lat = fl 34.0522, lon = - fl 118.2437, radius = fl 0.001,
                     probability = fl 0.7\<rparr>) # rest"
    using near_hotspots_centre by blast
  obtain rest' where g: "near_hotspots rounded_square (fl 34.0522) (- fl 118.2450) =
     (''Landmine'', \<lparr>lat = fl 34.0530, lon = - fl 118.2450, radius = fl 0.0008,
                     probability = fl 0.6\<rparr>) # rest'"
    using near_hotspots_grid by blast
  have 1: "fst (is_near_hotspot rounded_square (fl 34.0522) (- fl 118.2437) half_rng)
     = (Some ''Landmine'', 70)"
    using centre [THEN conjunct2, THEN conjunct1, rule_format, of 0] p7 confidence_70
    unfolding c by simp
  have 2: "distance rounded_square (fl 34.0522) (- fl 118.2450) (fl 34.0530) (- fl 118.2450)
       < fl 0.0008"
    unfolding grid_distance_second fl_0_0008 by simp
  have 3: "fst (is_near_hotspot rounded_square (fl 34.0522) (- fl 118.2450) half_rng)
       = (Some ''Landmine'', 60)"
    using grid [THEN conjunct2, THEN conjunct1, rule_format, of 0] p6 confidence_60
    unfolding g by simp
  have 4: "fst (is_near_hotspot rounded_square 0 0 half_rng) = (None, 0)"
    using origin_half [THEN conjunct2, THEN conjunct2, THEN conjunct1] p5(1)
    unfolding near_hotspots_origin by (simp add: fallback_def)
  have f: "fst (is_near_hotspot rounded_square 0 0 low_rng) = fallback low_rng"
    using origin_low [THEN conjunct2, THEN conjunct2, THEN conjunct1]
    unfolding near_hotspots_origin by simp
  have d: "is_double (25 / 128)" "is_double (8985 / 128)"
    using is_double_dyadic [of 25 7] is_double_dyadic [of 8985 7] by simp_all
  have "fl (25 * low_rng 2) = 25 / 128"
    using fl_double [OF d(1)] by (simp add: low_rng_def)
  moreover have "fl (70 + 25 / 128) = 70 + 25 / 128"
    using fl_double [OF d(2)] by simp
  ultimately have "fl (70 + fl (25 * low_rng 2)) = 70 + 25 / 128"
    by (simp only:)
  with p5(2) have 5: "fst (fallback low_rng) \<noteq> None" "snd (fallback low_rng) = 70 + 25 / 128"
    by (simp_all add: fallback_def)
  have 6: "rng_ok low_rng" by (simp add: rng_ok_def low_rng_def)
  from 1 2 3 4 5 6 near_hotspots_origin show ?thesis unfolding f by (intro conjI)
qed

subsection \<open>The detection record\<close>

lemma scan_labelled_label:
  "scan_labelled pow2 xs qlat qlon g = (Some (t, c), g') \<Longrightarrow> t \<in> fst ` set xs"
  by (induction pow2 xs qlat qlon g rule: scan_labelled.induct) (auto split: if_splits)

lemma is_near_hotspot_labels:
  assumes "fst (fst (is_near_hotspot pow2 qlat qlon g)) = Some t"
  shows "t = ''Landmine'' \<or> t = ''Metal Debris'' \<or> t = ''Safe Zone''"
proof (cases "scan_labelled pow2 (near_hotspots pow2 qlat qlon) qlat qlon g")
  case (Pair r g')
  show ?thesis
  proof (cases r)
    case None
    with Pair assms have "fst (fallback g') = Some t"
      by (simp add: is_near_hotspot_scan)
    then have "t \<in> set [''Landmine'', ''Metal Debris'', ''Safe Zone'']"
      using random_choices_mem [of "[''Landmine'', ''Metal Debris'', ''Safe Zone'']"]
      by (auto simp: fallback_def split: if_splits)
    then show ?thesis by simp
  next
    case (Some p)
    obtain t' c where p: "p = (t', c)" by (cases p)
    with Pair Some assms have "t' = t" by (simp add: is_near_hotspot_scan)
    with Pair Some p have "t \<in> fst ` set (near_hotspots pow2 qlat qlon)"
      using scan_labelled_label by blast
    then have "t \<in> fst ` set scan_order" by (auto simp: near_hotspots_def)
    then show ?thesis by (auto simp: scan_order_def)
  qed
qed

lemma check_for_detection_eq:
  "check_for_detection pow2 qlat qlon now g u =
     (case is_near_hotspot pow2 qlat qlon g of
        ((Some t, c), g') \<Rightarrow>
          (Some [''id'' \<mapsto> PyStr (u 0), ''timestamp'' \<mapsto> PyDateTime now,
                 ''latitude'' \<mapsto> PyFloat qlat, ''longitude'' \<mapsto> PyFloat qlon,
                 ''classification'' \<mapsto> PyStr t, ''confidence'' \<mapsto> PyFloat c],
           g', \<lambda>n. u (Suc n))
      | ((None, c), g') \<Rightarrow> (None, g', u))"
proof (cases "is_near_hotspot pow2 qlat qlon g")
  case (Pair r g')
  obtain dt c where r: "r = (dt, c)" by (cases r)
  show ?thesis
  proof (cases dt)
    case None
    with Pair r show ?thesis by (simp add: check_for_detection_def)
  next
    case (Some t)
    with Pair r have "fst (fst (is_near_hotspot pow2 qlat qlon g)) = Some t" by simp
    then have "t \<noteq> []" using is_near_hotspot_labels by fastforce
    with Pair r Some show ?thesis
      by (simp add: check_for_detection_def generate_unique_id_def)
  qed
qed

lemma check_for_detection_some:
  assumes "fst (check_for_detection pow2 qlat qlon now g u) = Some d"
  shows "\<exists>t. fst (fst (is_near_hotspot pow2 qlat qlon g)) = Some t
       \<and> d = [''id'' \<mapsto> PyStr (u 0), ''timestamp'' \<mapsto> PyDateTime now,
               ''latitude'' \<mapsto> PyFloat qlat, ''longitude'' \<mapsto> PyFloat qlon,
               ''classification'' \<mapsto> PyStr t,
               ''confidence'' \<mapsto> PyFloat (snd (fst (is_near_hotspot pow2 qlat qlon g)))]
       \<and> snd (snd (check_for_detection pow2 qlat qlon now g u)) = (\<lambda>n. u (Suc n))"
  using assms unfolding check_for_detection_eq
  by (auto split: prod.splits option.splits)

lemma check_for_detection_none:
  "fst (check_for_detection pow2 qlat qlon now g u) = None
     \<longleftrightarrow> fst (fst (is_near_hotspot pow2 qlat qlon g)) = None"
  unfolding check_for_detection_eq
  by (auto split: prod.splits option.splits)

lemma check_for_detection_none_source:
  "fst (check_for_detection pow2 qlat qlon now g u) = None
     \<Longrightarrow> snd (snd (check_for_detection pow2 qlat qlon now g u)) = u"
  unfolding check_for_detection_eq
  by (auto split: prod.splits option.splits)

text \<open>
  The identifiers of the records that successive calls return are identifiers of the
  source, each later in the source than those before it.
\<close>

lemma check_positions_ids:
  "d \<in> set (check_positions pow2 ps g (\<lambda>n. u (k + n)))
     \<Longrightarrow> \<exists>j\<ge>k. d ''id'' = Some (PyStr (u j))"
proof (induction ps arbitrary: g k)
  case Nil
  then show ?case by simp
next
  case (Cons p ps)
  obtain qlat qlon now where p: "p = (qlat, qlon, now)" by (cases p)
  let ?u = "\<lambda>n. u (k + n)"
  obtain r g' u' where c: "check_for_detection pow2 qlat qlon now g ?u = (r, g', u')"
    by (cases "check_for_detection pow2 qlat qlon now g ?u")
  show ?case
  proof (cases r)
    case None
    with c have "u' = ?u" using check_for_detection_none_source [of pow2 qlat qlon now g ?u]
      by simp
    with Cons.prems p c None have "d \<in> set (check_positions pow2 ps g' ?u)" by simp
    then show ?thesis by (rule Cons.IH)
  next
    case (Some d0)
    with c have s: "d0 ''id'' = Some (PyStr (u k))" "u' = (\<lambda>n. u (Suc k + n))"
      using check_for_detection_some [of pow2 qlat qlon now g ?u d0] by auto
    from Cons.prems p c Some
    have "d = d0 \<or> d \<in> set (check_positions pow2 ps g' (\<lambda>n. u (Suc k + n)))"
      by (simp add: s(2))
    then show ?thesis
    proof
      assume "d = d0"
      with s(1) show ?thesis by blast
    next
      assume "d \<in> set (check_positions pow2 ps g' (\<lambda>n. u (Suc k + n)))"
      then obtain j where "Suc k \<le> j" "d ''id'' = Some (PyStr (u j))"
        using Cons.IH [of g' "Suc k"] by blast
      then show ?thesis by (intro exI [of _ j]) simp
    qed
  qed
qed

lemma check_positions_distinct:
  assumes "inj u"
  shows "distinct (map (\<lambda>d. d ''id'') (check_positions pow2 ps g (\<lambda>n. u (k + n))))"
proof (induction ps arbitrary: g k)
  case Nil
  then show ?case by simp
next
  case (Cons p ps)
  obtain qlat qlon now where p: "p = (qlat, qlon, now)" by (cases p)
  let ?u = "\<lambda>n. u (k + n)"
  obtain r g' u' where c: "check_for_detection pow2 qlat qlon now g ?u = (r, g', u')"
    by (cases "check_for_detection pow2 qlat qlon now g ?u")
  show ?case
  proof (cases r)
    case None
    with c have "u' = ?u" using check_for_detection_none_source [of pow2 qlat qlon now g ?u]
      by simp
    with p c None show ?thesis using Cons.IH [of g' k] by simp
  next
    case (Some d0)
    with c have s: "d0 ''id'' = Some (PyStr (u k))" "u' = (\<lambda>n. u (Suc k + n))"
      using check_for_detection_some [of pow2 qlat qlon now g ?u d0] by auto
    have "d0 ''id'' \<noteq> d ''id''"
      if "d \<in> set (check_positions pow2 ps g' (\<lambda>n. u (Suc k + n)))" for d
    proof -
      from that obtain j where "Suc k \<le> j" "d ''id'' = Some (PyStr (u j))"
        using check_positions_ids [of d pow2 ps g' u "Suc k"] by blast
      moreover from this(1) assms have "u j \<noteq> u k" by (auto dest: injD)
      ultimately show ?thesis using s(1) by simp
    qed
    then have "d0 ''id'' \<notin> (\<lambda>d. d ''id'') ` set (check_positions pow2 ps g' (\<lambda>n. u (Suc k + n)))"
      by auto
    with p c Some s(2) show ?thesis using Cons.IH [of g' "Suc k"] by simp
  qed
qed

text \<open>
  Claim C8. \<open>check_for_detection\<close> returns \<open>None\<close> exactly when \<open>is_near_hotspot\<close>
  returned no classification, and then takes no identifier from the source. Otherwise it
  returns a record with the six fields \<open>id\<close>, \<open>timestamp\<close>, \<open>latitude\<close>, \<open>longitude\<close>,
  \<open>classification\<close>, \<open>confidence\<close>, whose position is the queried one, whose
  classification and confidence are those of \<open>is_near_hotspot\<close>, and whose id is the next
  identifier \<open>u 0\<close> of the source, which the call removes from the source. When the
  source never repeats an identifier, the records that any sequence of calls returns have
  pairwise different ids.
\<close>

theorem check_for_detection_record:
  "(fst (check_for_detection pow2 qlat qlon now g u) = None
      \<longleftrightarrow> fst (fst (is_near_hotspot pow2 qlat qlon g)) = None)
   \<and> (fst (check_for_detection pow2 qlat qlon now g u) = None
        \<longrightarrow> snd (snd (check_for_detection pow2 qlat qlon now g u)) = u)
   \<and> (\<forall>d. fst (check_for_detection pow2 qlat qlon now g u) = Some d \<longrightarrow>
         dom d = {''id'', ''timestamp'', ''latitude'', ''longitude'', ''classification'',
                  ''confidence''}
       \<and> d ''latitude'' = Some (PyFloat qlat)
       \<and> d ''longitude'' = Some (PyFloat qlon)
       \<and> (\<exists>t. fst (fst (is_near_hotspot pow2 qlat qlon g)) = Some t
              \<and> d ''classification'' = Some (PyStr t))
       \<and> d ''confidence'' = Some (PyFloat (snd (fst (is_near_hotspot pow2 qlat qlon g))))
       \<and> d ''timestamp'' = Some (PyDateTime now)
       \<and> d ''id'' = Some (PyStr (u 0))
       \<and> snd (snd (check_for_detection pow2 qlat qlon now g u)) = (\<lambda>n. u (Suc n)))
   \<and> (inj u \<longrightarrow> distinct (map (\<lambda>d. d ''id'') (check_positions pow2 ps g' u)))"
proof (intro conjI allI impI)
  show "fst (check_for_detection pow2 qlat qlon now g u) = None
      \<longleftrightarrow> fst (fst (is_near_hotspot pow2 qlat qlon g)) = None"
    by (rule check_for_detection_none)
next
  assume "fst (check_for_detection pow2 qlat qlon now g u) = None"
  then show "snd (snd (check_for_detection pow2 qlat qlon now g u)) = u"
    by (rule check_for_detection_none_source)
next
  assume "inj u"
  then show "distinct (map (\<lambda>d. d ''id'') (check_positions pow2 ps g' u))"
    using check_positions_distinct [of u pow2 ps g' 0] by simp
next
  fix d assume d: "fst (check_for_detection pow2 qlat qlon now g u) = Some d"
  from check_for_detection_some [OF d] obtain t where
    t: "fst (fst (is_near_hotspot pow2 qlat qlon g)) = Some t" and
    deq: "d = [''id'' \<mapsto> PyStr (u 0), ''timestamp'' \<mapsto> PyDateTime now,
               ''latitude'' \<mapsto> PyFloat qlat, ''longitude'' \<mapsto> PyFloat qlon,
               ''classification'' \<mapsto> PyStr t,
               ''confidence'' \<mapsto> PyFloat (snd (fst (is_near_hotspot pow2 qlat qlon g)))]" and
    u': "snd (snd (check_for_detection pow2 qlat qlon now g u)) = (\<lambda>n. u (Suc n))"
    by blast
  show "dom d = {''id'', ''timestamp'', ''latitude'', ''longitude'', ''classification'',
                  ''confidence''}"
    unfolding deq by auto
  show "d ''latitude'' = Some (PyFloat qlat)" unfolding deq by simp
  show "d ''longitude'' = Some (PyFloat qlon)" unfolding deq by simp
  show "\<exists>t. fst (fst (is_near_hotspot pow2 qlat qlon g)) = Some t
              \<and> d ''classification'' = Some (PyStr t)"
    using t unfolding deq by simp
  show "d ''confidence'' = Some (PyFloat (snd (fst (is_near_hotspot pow2 qlat qlon g))))"
    unfolding deq by simp
  show "d ''timestamp'' = Some (PyDateTime now)" unfolding deq by simp
  show "d ''id'' = Some (PyStr (u 0))" unfolding deq by simp
  show "snd (snd (check_for_detection pow2 qlat qlon now g u)) = (\<lambda>n. u (Suc n))"
    by (rule u')
qed

lemma is_near_hotspot_centre_half:
  "fst (is_near_hotspot rounded_square (fl 34.0522) (- fl 118.2437) half_rng)
     = (Some ''Landmine'', 70)"
proof -
  obtain rest where c: "near_hotspots rounded_square (fl 34.0522) (- fl 118.2437) =
     (''Landmine'', \<lparr>lat = fl 34.0522, lon = - fl 118.2437, radius = fl 0.001,
                     probability = fl 0.7\<rparr>) # rest"
    using near_hotspots_centre by blast
  have r: "0 < fl 0.001" unfolding fl_0_001 by simp
  have p7: "half_rng 0 < fl 0.7" unfolding fl_0_7 by (simp add: half_rng_def)
  show ?thesis
    unfolding is_near_hotspot_scan c
    using r p7 confidence_70 by (simp add: distance_same)
qed

lemma is_near_hotspot_origin_half:
  "fst (is_near_hotspot rounded_square 0 0 half_rng) = (None, 0)"
proof -
  have "\<not> half_rng 0 < fl 0.05"
    using fl_le [of "0.05" "1 / 2 ^ 4"] is_double_dyadic [of 1 4]
    by (simp add: half_rng_def)
  then show ?thesis
    unfolding is_near_hotspot_scan near_hotspots_origin
    by (simp add: fallback_def)
qed

lemma inj_count_ids: "inj count_ids"
proof (rule injI)
  fix m n assume "count_ids m = count_ids n"
  then have "length (count_ids m) = length (count_ids n)" by simp
  then show "m = n" by (simp add: count_ids_def)
qed

lemma fst_check_for_detection:
  "fst (check_for_detection pow2 qlat qlon now g u) =
     (case fst (is_near_hotspot pow2 qlat qlon g) of
        (Some t, c) \<Rightarrow>
          Some [''id'' \<mapsto> PyStr (u 0), ''timestamp'' \<mapsto> PyDateTime now,
                ''latitude'' \<mapsto> PyFloat qlat, ''longitude'' \<mapsto> PyFloat qlon,
                ''classification'' \<mapsto> PyStr t, ''confidence'' \<mapsto> PyFloat c]
      | (None, c) \<Rightarrow> None)"
  unfolding check_for_detection_eq by (auto split: prod.splits option.splits)

lemma scan_hotspots_const:
  "scan_hotspots pow2 label hs qlat qlon (\<lambda>n. c) = (r, g') \<Longrightarrow> g' = (\<lambda>n. c)"
  by (induction hs) (auto simp: random_random_def split: if_splits)

lemma is_near_hotspot_const:
  "snd (is_near_hotspot pow2 qlat qlon (\<lambda>n. c)) = (\<lambda>n. c)"
proof -
  obtain r1 g1 where 1: "scan_hotspots pow2 ''Landmine'' landmine_hotspots qlat qlon (\<lambda>n. c) = (r1, g1)"
    by (cases "scan_hotspots pow2 ''Landmine'' landmine_hotspots qlat qlon (\<lambda>n. c)")
  then have g1: "g1 = (\<lambda>n. c)" by (rule scan_hotspots_const)
  obtain r2 g2 where 2: "scan_hotspots pow2 ''Metal Debris'' debris_hotspots qlat qlon (\<lambda>n. c) = (r2, g2)"
    by (cases "scan_hotspots pow2 ''Metal Debris'' debris_hotspots qlat qlon (\<lambda>n. c)")
  then have g2: "g2 = (\<lambda>n. c)" by (rule scan_hotspots_const)
  obtain r3 g3 where 3: "scan_hotspots pow2 ''Safe Zone'' safe_hotspots qlat qlon (\<lambda>n. c) = (r3, g3)"
    by (cases "scan_hotspots pow2 ''Safe Zone'' safe_hotspots qlat qlon (\<lambda>n. c)")
  then have g3: "g3 = (\<lambda>n. c)" by (rule scan_hotspots_const)
  show ?thesis
    unfolding is_near_hotspot_def random_detection_eq
    using 1 2 3 unfolding g1 g2 g3
    by (simp split: option.splits prod.splits)
qed

lemma check_positions_twice:
  "check_positions rounded_square
     [(fl 34.0522, - fl 118.2437, 0), (0, 0, 3), (fl 34.0522, - fl 118.2437, 5)]
     half_rng count_ids
   = [hotspot_record,
      hotspot_record(''id'' \<mapsto> PyStr ''aa'', ''timestamp'' \<mapsto> PyDateTime 5)]"
proof -
  have a: "check_for_detection rounded_square (fl 34.0522) (- fl 118.2437) now half_rng u
     = (Some [''id'' \<mapsto> PyStr (u 0), ''timestamp'' \<mapsto> PyDateTime now,
                 ''latitude'' \<mapsto> PyFloat (fl 34.0522),
                 ''longitude'' \<mapsto> PyFloat (- fl 118.2437),
                 ''classification'' \<mapsto> PyStr ''Landmine'', ''confidence'' \<mapsto> PyFloat 70],
        half_rng, \<lambda>n. u (Suc n))" for now u
    using is_near_hotspot_centre_half
      is_near_hotspot_const [of rounded_square "fl 34.0522" "- fl 118.2437" "1 / 2"]
    unfolding check_for_detection_eq half_rng_def
    by (auto split: prod.splits option.splits)
  have b: "check_for_detection rounded_square 0 0 now half_rng u = (None, half_rng, u)" for now u
    using is_near_hotspot_origin_half is_near_hotspot_const [of rounded_square 0 0 "1 / 2"]
    unfolding check_for_detection_eq half_rng_def
    by (auto split: prod.splits option.splits)
  show ?thesis
    unfolding check_positions.simps a b prod.case option.case
    by (auto simp: hotspot_record_def count_ids_def fun_eq_iff)
qed

theorem check_for_detection_record_witness:
  "fst (check_for_detection rounded_square (fl 34.0522) (- fl 118.2437) 0 half_rng count_ids)
     = Some hotspot_record
   \<and> fst (fst (is_near_hotspot rounded_square (fl 34.0522) (- fl 118.2437) half_rng))
       = Some ''Landmine''
   \<and> hotspot_record ''latitude'' = Some (PyFloat (fl 34.0522))
   \<and> hotspot_record ''longitude'' = Some (PyFloat (- fl 118.2437))
   \<and> hotspot_record ''id'' = Some (PyStr (count_ids 0))
   \<and> fst (check_for_detection rounded_square 0 0 0 half_rng count_ids) = None
   \<and> fst (fst (is_near_hotspot rounded_square 0 0 half_rng)) = None
   \<and> snd (snd (check_for_detection rounded_square 0 0 0 half_rng count_ids)) = count_ids
   \<and> inj count_ids
   \<and> map (\<lambda>d. d ''id'')
        (check_positions rounded_square
           [(fl 34.0522, - fl 118.2437, 0), (0, 0, 3), (fl 34.0522, - fl 118.2437, 5)]
           half_rng count_ids)
       = [Some (PyStr ''a''), Some (PyStr ''aa'')]
   \<and> distinct [Some (PyStr ''a''), Some (PyStr ''aa'')]"
proof -
  have one: "fst (check_for_detection rounded_square (fl 34.0522) (- fl 118.2437) 0 half_rng
                count_ids) = Some hotspot_record"
    unfolding fst_check_for_detection is_near_hotspot_centre_half
    by (simp add: hotspot_record_def count_ids_def)
  note t = check_for_detection_record
      [of rounded_square "fl 34.0522" "- fl 118.2437" 0 half_rng count_ids
          "[(fl 34.0522, - fl 118.2437, 0), (0, 0, 3), (fl 34.0522, - fl 118.2437, 5)]" half_rng]
  note t0 = check_for_detection_record [of rounded_square 0 0 0 half_rng count_ids]
  from t one have fields: "hotspot_record ''latitude'' = Some (PyFloat (fl 34.0522))
      \<and> hotspot_record ''longitude'' = Some (PyFloat (- fl 118.2437))
      \<and> hotspot_record ''id'' = Some (PyStr (count_ids 0))"
    by blast
  have ids: "map (\<lambda>d. d ''id'')
        (check_positions rounded_square
           [(fl 34.0522, - fl 118.2437, 0), (0, 0, 3), (fl 34.0522, - fl 118.2437, 5)]
           half_rng count_ids)
       = [Some (PyStr ''a''), Some (PyStr ''aa'')]"
    unfolding check_positions_twice by (simp add: hotspot_record_def)
  from t inj_count_ids have "distinct (map (\<lambda>d. d ''id'')
        (check_positions rounded_square
           [(fl 34.0522, - fl 118.2437, 0), (0, 0, 3), (fl 34.0522, - fl 118.2437, 5)]
           half_rng count_ids))"
    by blast
  then have dist: "distinct [Some (PyStr ''a''), Some (PyStr ''aa'')]" unfolding ids .
  from t0 have none: "fst (check_for_detection rounded_square 0 0 0 half_rng count_ids) = None"
    "snd (snd (check_for_detection rounded_square 0 0 0 half_rng count_ids)) = count_ids"
    unfolding is_near_hotspot_origin_half by simp_all
  show ?thesis
    using one fields ids dist none inj_count_ids
    unfolding is_near_hotspot_origin_half is_near_hotspot_centre_half
    by simp
qed

section \<open>Properties of the persistence layer\<close>

lemma save_detection_cases:
  "save_detection ins d store =
     (case new_detection d of
        Inl e \<Rightarrow> (False, store)
      | Inr r \<Rightarrow> (case ins store r of Inl e \<Rightarrow> (False, store) | Inr store' \<Rightarrow> (True, store')))"
  by (simp add: save_detection_def save_detection_try_def SessionLocal_def db_add_def
      db_commit_def db_rollback_def db_close_def split: sum.splits)

lemma save_detection_try_raises:
  "(\<exists>e. fst (save_detection_try ins d (SessionLocal store)) = Inl e) \<longleftrightarrow>
     (\<exists>e. new_detection d = Inl e) \<or> (\<exists>r e. new_detection d = Inr r \<and> ins store r = Inl e)"
  by (auto simp add: save_detection_try_def SessionLocal_def db_add_def
      db_commit_def split: sum.splits)

lemma commit_succeeds:
  "fst (db_commit ins (db_add r (SessionLocal store))) = Inr () \<longleftrightarrow> (\<exists>store'. ins store r = Inr store')"
  by (auto simp add: SessionLocal_def db_add_def db_commit_def split: sum.splits)

text \<open>
  Claim C4. \<open>save_detection\<close> returns \<open>True\<close> exactly when the row was built and the
  commit of the session succeeded, and the table is then the one the engine committed.
  When the body of the \<open>try\<close> raises an exception, \<open>save_detection\<close> returns \<open>False\<close> and
  the table is the one it started from; whenever it returns \<open>False\<close> the table is unchanged.
\<close>

theorem save_detection_result:
  "(fst (save_detection ins d store) \<longleftrightarrow>
      (\<exists>r. new_detection d = Inr r
          \<and> fst (db_commit ins (db_add r (SessionLocal store))) = Inr ()))
   \<and> (\<forall>r store'. new_detection d = Inr r \<and> ins store r = Inr store' \<longrightarrow>
          save_detection ins d store = (True, store'))
   \<and> ((\<exists>e. fst (save_detection_try ins d (SessionLocal store)) = Inl e) \<longrightarrow>
          save_detection ins d store = (False, store))
   \<and> (\<not> fst (save_detection ins d store) \<longrightarrow> snd (save_detection ins d store) = store)"
proof (intro conjI)
  show "fst (save_detection ins d store) \<longleftrightarrow>
      (\<exists>r. new_detection d = Inr r
          \<and> fst (db_commit ins (db_add r (SessionLocal store))) = Inr ())"
    unfolding commit_succeeds save_detection_cases by (auto split: sum.splits)
  show "\<forall>r store'. new_detection d = Inr r \<and> ins store r = Inr store' \<longrightarrow>
          save_detection ins d store = (True, store')"
    unfolding save_detection_cases by simp
  show "(\<exists>e. fst (save_detection_try ins d (SessionLocal store)) = Inl e) \<longrightarrow>
          save_detection ins d store = (False, store)"
    unfolding save_detection_try_raises save_detection_cases by auto
  show "\<not> fst (save_detection ins d store) \<longrightarrow> snd (save_detection ins d store) = store"
    unfolding save_detection_cases by (auto split: sum.splits)
qed

lemma new_detection_centre: "new_detection centre_record = Inr centre_row"
  by (simp add: new_detection_def centre_record_def centre_row_def subscript_def dict_get_def)

lemma new_detection_empty: "new_detection Map.empty = Inl (KeyError ''id'')"
  by (simp add: new_detection_def subscript_def)

theorem save_detection_result_witness:
  "new_detection centre_record = Inr centre_row
   \<and> insert_detection [] centre_row = Inr [centre_row]
   \<and> save_detection insert_detection centre_record [] = (True, [centre_row])
   \<and> fst (save_detection_try insert_detection centre_record (SessionLocal [centre_row]))
        = Inl (IntegrityError ''UNIQUE constraint failed: detections.id'')
   \<and> save_detection insert_detection centre_record [centre_row] = (False, [centre_row])
   \<and> fst (save_detection_try insert_detection Map.empty (SessionLocal [centre_row]))
        = Inl (KeyError ''id'')
   \<and> save_detection insert_detection Map.empty [centre_row] = (False, [centre_row])"
proof -
  have ins: "insert_detection [] centre_row = Inr [centre_row]"
    by (simp add: insert_detection_def centre_row_def)
  have dup: "fst (save_detection_try insert_detection centre_record (SessionLocal [centre_row]))
        = Inl (IntegrityError ''UNIQUE constraint failed: detections.id'')"
    by (simp add: save_detection_try_def new_detection_centre SessionLocal_def db_add_def
        db_commit_def insert_detection_def centre_row_def)
  have key: "fst (save_detection_try insert_detection Map.empty (SessionLocal [centre_row]))
        = Inl (KeyError ''id'')"
    by (simp add: save_detection_try_def new_detection_empty)
  note a = save_detection_result [of insert_detection centre_record "[]"]
  note b = save_detection_result [of insert_detection centre_record "[centre_row]"]
  note c = save_detection_result [of insert_detection Map.empty "[centre_row]"]
  from a new_detection_centre ins
  have 1: "save_detection insert_detection centre_record [] = (True, [centre_row])" by blast
  from b dup
  have 2: "save_detection insert_detection centre_record [centre_row] = (False, [centre_row])"
    by blast
  from c key
  have 3: "save_detection insert_detection Map.empty [centre_row] = (False, [centre_row])"
    by blast
  from new_detection_centre ins 1 dup 2 key 3 show ?thesis by (intro conjI)
qed

section \<open>Properties of the image processor\<close>

lemma predefined_detections_eval:
  "fst (predefined_detections image_path predefined_landmines c u) =
     [make_detection (u 0) (c 0) image_path 146 164 35 33 93.5 ''Landmine'',
      make_detection (u 1) (c 1) image_path 396 139 37 35 93.0 ''Landmine'',
      make_detection (u 2) (c 2) image_path 143 367 40 38 84.0 ''Landmine'',
      make_detection (u 3) (c 3) image_path 391 389 42 40 94.0 ''Landmine'']"
  by (simp add: predefined_landmines_def generate_unique_id_def datetime_now_def
      numeral_2_eq_2 numeral_3_eq_3 split: prod.splits)

lemma detection_summary_make:
  "detection_summary (make_detection i t p x y w h conf cls) =
     (Some (PyInt x), Some (PyInt y), Some (PyInt w), Some (PyInt h), Some (PyFloat conf),
      Some (PyStr cls), Some (PyFloat (34.0522 + real_of_int y / 1000)),
      Some (PyFloat (- 118.2437 + real_of_int x / 1000)))"
  by (simp add: detection_summary_def make_detection_def)

lemma detect_landmines_predefined:
  assumes "str_contains ''landmine_detection1.jpg'' image_path"
    and "path_exists env image_path"
    and "imread env image_path = Some img"
    and "write_processed env image_path = None"
  shows "fst (detect_landmines env ins image_path self c u store) =
           fst (predefined_detections image_path predefined_landmines c u)"
  using assms
  by (simp add: detect_landmines_def detect_landmines_try_def split: prod.splits)

lemma detect_landmines_write_fails:
  assumes "str_contains ''landmine_detection1.jpg'' image_path"
    and "path_exists env image_path"
    and "imread env image_path = Some img"
    and "write_processed env image_path = Some e"
  shows "detect_landmines env ins image_path self c u store = ([], self, store)"
  using assms
  by (simp add: detect_landmines_def detect_landmines_try_def split: prod.splits)

lemma demo_path_contains: "str_contains ''landmine_detection1.jpg'' demo_path"
  by (simp add: demo_path_def)

text \<open>
  Claim C5, amended. For an image path that contains \<open>landmine_detection1.jpg\<close>, when the
  file exists, \<open>cv2.imread\<close> returns an image and saving the processed image raises no
  exception, \<open>detect_landmines\<close> returns the four detections of the hardcoded list, in
  order, with latitude \<open>34.0522 + y/1000\<close> and longitude \<open>-118.2437 + x/1000\<close>; the result
  does not depend on the contours found in the image.
\<close>

theorem detect_landmines_demo_image:
  assumes "str_contains ''landmine_detection1.jpg'' image_path"
    and "path_exists env image_path"
    and "imread env image_path = Some img"
    and "write_processed env image_path = None"
  shows "fst (detect_landmines env ins image_path self c u store) =
           [make_detection (u 0) (c 0) image_path 146 164 35 33 93.5 ''Landmine'',
            make_detection (u 1) (c 1) image_path 396 139 37 35 93.0 ''Landmine'',
            make_detection (u 2) (c 2) image_path 143 367 40 38 84.0 ''Landmine'',
            make_detection (u 3) (c 3) image_path 391 389 42 40 94.0 ''Landmine'']
       \<and> map detection_summary (fst (detect_landmines env ins image_path self c u store)) =
           [(Some (PyInt 146), Some (PyInt 164), Some (PyInt 35), Some (PyInt 33),
             Some (PyFloat 93.5), Some (PyStr ''Landmine''),
             Some (PyFloat (34.0522 + 164 / 1000)), Some (PyFloat (- 118.2437 + 146 / 1000))),
            (Some (PyInt 396), Some (PyInt 139), Some (PyInt 37), Some (PyInt 35),
             Some (PyFloat 93.0), Some (PyStr ''Landmine''),
             Some (PyFloat (34.0522 + 139 / 1000)), Some (PyFloat (- 118.2437 + 396 / 1000))),
            (Some (PyInt 143), Some (PyInt 367), Some (PyInt 40), Some (PyInt 38),
             Some (PyFloat 84.0), Some (PyStr ''Landmine''),
             Some (PyFloat (34.0522 + 367 / 1000)), Some (PyFloat (- 118.2437 + 143 / 1000))),
            (Some (PyInt 391), Some (PyInt 389), Some (PyInt 42), Some (PyInt 40),
             Some (PyFloat 94.0), Some (PyStr ''Landmine''),
             Some (PyFloat (34.0522 + 389 / 1000)), Some (PyFloat (- 118.2437 + 391 / 1000)))]
       \<and> fst (detect_landmines (env\<lparr>find_contours := fc\<rparr>) ins image_path self c u store) =
           fst (detect_landmines env ins image_path self c u store)"
proof -
  have r: "fst (detect_landmines env ins image_path self c u store) =
           [make_detection (u 0) (c 0) image_path 146 164 35 33 93.5 ''Landmine'',
            make_detection (u 1) (c 1) image_path 396 139 37 35 93.0 ''Landmine'',
            make_detection (u 2) (c 2) image_path 143 367 40 38 84.0 ''Landmine'',
            make_detection (u 3) (c 3) image_path 391 389 42 40 94.0 ''Landmine'']"
    unfolding detect_landmines_predefined [OF assms] by (rule predefined_detections_eval)
  have s: "map detection_summary (fst (detect_landmines env ins image_path self c u store)) =
           [(Some (PyInt 146), Some (PyInt 164), Some (PyInt 35), Some (PyInt 33),
             Some (PyFloat 93.5), Some (PyStr ''Landmine''),
             Some (PyFloat (34.0522 + 164 / 1000)), Some (PyFloat (- 118.2437 + 146 / 1000))),
            (Some (PyInt 396), Some (PyInt 139), Some (PyInt 37), Some (PyInt 35),
             Some (PyFloat 93.0), Some (PyStr ''Landmine''),
             Some (PyFloat (34.0522 + 139 / 1000)), Some (PyFloat (- 118.2437 + 396 / 1000))),
            (Some (PyInt 143), Some (PyInt 367), Some (PyInt 40), Some (PyInt 38),
             Some (PyFloat 84.0), Some (PyStr ''Landmine''),
             Some (PyFloat (34.0522 + 367 / 1000)), Some (PyFloat (- 118.2437 + 143 / 1000))),
            (Some (PyInt 391), Some (PyInt 389), Some (PyInt 42), Some (PyInt 40),
             Some (PyFloat 94.0), Some (PyStr ''Landmine''),
             Some (PyFloat (34.0522 + 389 / 1000)), Some (PyFloat (- 118.2437 + 391 / 1000)))]"
    unfolding r by (simp add: detection_summary_make)
  have "fst (detect_landmines (env\<lparr>find_contours := fc\<rparr>) ins image_path self c u store) =
           fst (predefined_detections image_path predefined_landmines c u)"
    using assms by (intro detect_landmines_predefined) simp_all
  then have i: "fst (detect_landmines (env\<lparr>find_contours := fc\<rparr>) ins image_path self c u store) =
           fst (detect_landmines env ins image_path self c u store)"
    by (simp add: detect_landmines_predefined [OF assms])
  from r s i show ?thesis by (intro conjI)
qed

text \<open>
  Claim C5 as stated fails: the file exists and is read as an image, but the processed
  image cannot be saved; the exception is caught and the empty list is returned.
\<close>

theorem detect_landmines_demo_image_counterexample:
  "str_contains ''landmine_detection1.jpg'' demo_path
   \<and> path_exists readonly_env demo_path
   \<and> imread readonly_env demo_path = Some ()
   \<and> fst (detect_landmines readonly_env insert_detection demo_path new_detector tick_clock
            count_ids []) = []"
proof -
  have e: "path_exists readonly_env demo_path" "imread readonly_env demo_path = Some ()"
    "write_processed readonly_env demo_path = Some (OSError ''Read-only file system'')"
    by (simp_all add: readonly_env_def demo_env_def)
  from detect_landmines_write_fails [OF demo_path_contains e]
  show ?thesis using demo_path_contains e by simp
qed

theorem detect_landmines_demo_image_witness:
  "str_contains ''landmine_detection1.jpg'' demo_path
   \<and> path_exists demo_env demo_path
   \<and> imread demo_env demo_path = Some ()
   \<and> write_processed demo_env demo_path = None
   \<and> length (fst (detect_landmines demo_env insert_detection demo_path new_detector tick_clock
            count_ids [])) = 4
   \<and> map (\<lambda>d. d ''confidence'')
        (fst (detect_landmines demo_env insert_detection demo_path new_detector tick_clock
            count_ids []))
      = [Some (PyFloat 93.5), Some (PyFloat 93.0), Some (PyFloat 84.0), Some (PyFloat 94.0)]"
proof -
  have e: "path_exists demo_env demo_path" "imread demo_env demo_path = Some ()"
    "write_processed demo_env demo_path = None"
    by (simp_all add: demo_env_def)
  note t = detect_landmines_demo_image [OF demo_path_contains e,
      of insert_detection new_detector tick_clock count_ids "[]", THEN conjunct1]
  show ?thesis using demo_path_contains e unfolding t
    by (simp add: make_detection_def)
qed

end
